theory Spec2Isabelle
  imports Complex_Main
begin

section \<open>Errors, tokens and expression trees\<close>

text \<open>
  The calculator signals every failure by throwing. \<open>Token.h\<close> declares the base class
  \<open>CalcError\<close> with exactly two subclasses, \<open>ParseError\<close> (thrown by the lexer and by
  the parser) and \<open>EvalError\<close> (thrown by the evaluator and the context). A third kind
  of exception can leave an \<open>evaluate\<close> call: \<open>std::out_of_range\<close>, thrown by the
  library conversions \<open>std::stod\<close> and \<open>std::stoi\<close> that the lexer calls; it is not a
  \<open>CalcError\<close>. An exception is a value here: the constructor is the class, the string
  is \<open>what()\<close> (for \<open>OutOfRange\<close>, the name of the conversion that threw).
\<close>

datatype error = ParseError string | EvalError string | OutOfRange string

fun isCalcError :: "error \<Rightarrow> bool" where
  "isCalcError (ParseError m) = True"
| "isCalcError (EvalError m) = True"
| "isCalcError (OutOfRange m) = False"

fun isParseError :: "error \<Rightarrow> bool" where
  "isParseError (ParseError m) = True"
| "isParseError (EvalError m) = False"
| "isParseError (OutOfRange m) = False"

fun isEvalError :: "error \<Rightarrow> bool" where
  "isEvalError (ParseError m) = False"
| "isEvalError (EvalError m) = True"
| "isEvalError (OutOfRange m) = False"

fun what :: "error \<Rightarrow> string" where
  "what (ParseError m) = m"
| "what (EvalError m) = m"
| "what (OutOfRange m) = m"

text \<open>\<open>enum class TokenType\<close>; \<open>Plus\<close> is written \<open>PlusTok\<close> (HOL has a constant \<open>Plus\<close>).\<close>

datatype TokenType =
  End | Number | Identifier | HistoryRef | PlusTok | Minus | Star | Slash | Percent | Caret
  | LParen | RParen | Comma | Assign

text \<open>
  \<open>struct Token\<close>. The type \<open>'d\<close> stands for \<open>double\<close> throughout; the floating-point
  operations on it are the fields of the record \<open>fpu\<close> below.
\<close>

record 'd Token =
  type :: TokenType
  lexeme :: string
  position :: nat
  number_value :: 'd
  history_index :: int

datatype UnaryOp = Negate

datatype BinaryOp = Add | Subtract | Multiply | Divide | Modulo | Power

text \<open>
  The node classes of \<open>AST.h\<close>, one constructor for each \<open>final\<close> subclass of \<open>Node\<close>.
\<close>

datatype 'd Node =
  NumberNode 'd
  | VariableNode string
  | HistoryRefNode int
  | UnaryNode UnaryOp "'d Node"
  | BinaryNode BinaryOp "'d Node" "'d Node"
  | CallNode string "'d Node list"
  | AssignmentNode string "'d Node"

section \<open>Floating point\<close>

text \<open>
  The program computes with \<open>double\<close> and calls \<open>std::stod\<close> and the functions of
  \<open>cmath\<close>. None of them is code of the calculator, so they are parameters: \<open>fp_of_rat q\<close>
  is the \<open>double\<close> the platform gives to the decimal literal of value \<open>q\<close> (at compile
  time for \<open>0.0\<close>, \<open>1.0\<close>, \<open>-1.0\<close> and \<open>1e-12\<close>, in \<open>strtod\<close> for input text), and
  \<open>fp_erange q\<close> tells whether \<open>strtod\<close> reports a range error for it, which makes
  \<open>std::stod\<close> throw \<open>std::out_of_range\<close>. \<open>fp_less\<close> is \<open>operator<\<close>.
\<close>

record 'd fpu =
  fp_of_rat :: "rat \<Rightarrow> 'd"
  fp_erange :: "rat \<Rightarrow> bool"
  fp_less :: "'d \<Rightarrow> 'd \<Rightarrow> bool"
  fp_neg :: "'d \<Rightarrow> 'd"
  fp_add :: "'d \<Rightarrow> 'd \<Rightarrow> 'd"
  fp_sub :: "'d \<Rightarrow> 'd \<Rightarrow> 'd"
  fp_mul :: "'d \<Rightarrow> 'd \<Rightarrow> 'd"
  fp_div :: "'d \<Rightarrow> 'd \<Rightarrow> 'd"
  fp_fmod :: "'d \<Rightarrow> 'd \<Rightarrow> 'd"
  fp_pow :: "'d \<Rightarrow> 'd \<Rightarrow> 'd"
  fp_abs :: "'d \<Rightarrow> 'd"
  fp_sin :: "'d \<Rightarrow> 'd"
  fp_cos :: "'d \<Rightarrow> 'd"
  fp_tan :: "'d \<Rightarrow> 'd"
  fp_sqrt :: "'d \<Rightarrow> 'd"
  fp_log :: "'d \<Rightarrow> 'd"
  fp_log10 :: "'d \<Rightarrow> 'd"
  fp_ceil :: "'d \<Rightarrow> 'd"
  fp_floor :: "'d \<Rightarrow> 'd"
  fp_acos :: "'d \<Rightarrow> 'd"
  fp_exp :: "'d \<Rightarrow> 'd"

section \<open>Characters and text\<close>

text \<open>The \<open>cctype\<close> classifiers in the "C" locale, on the byte value of the character.\<close>

definition isdigit :: "char \<Rightarrow> bool" where
  "isdigit c = (48 \<le> (of_char c :: nat) \<and> (of_char c :: nat) \<le> 57)"

definition isalpha :: "char \<Rightarrow> bool" where
  "isalpha c = ((65 \<le> (of_char c :: nat) \<and> (of_char c :: nat) \<le> 90)
     \<or> (97 \<le> (of_char c :: nat) \<and> (of_char c :: nat) \<le> 122))"

definition isalnum :: "char \<Rightarrow> bool" where
  "isalnum c = (isalpha c \<or> isdigit c)"

definition isspace :: "char \<Rightarrow> bool" where
  "isspace c = ((of_char c :: nat) = 32 \<or> (9 \<le> (of_char c :: nat) \<and> (of_char c :: nat) \<le> 13))"

text \<open>\<open>operator<<\<close> of an output stream on an unsigned and on a signed integer.\<close>

definition digit_char :: "nat \<Rightarrow> char" where
  "digit_char d = ''0123456789'' ! d"

function show_nat :: "nat \<Rightarrow> string" where
  "show_nat n = (if n < 10 then [digit_char n] else show_nat (n div 10) @ [digit_char (n mod 10)])"
  by pat_completeness auto
termination
  by (relation "measure id") auto

definition show_int :: "int \<Rightarrow> string" where
  "show_int i = (if i < 0 then CHR ''-'' # show_nat (nat (- i)) else show_nat (nat i))"

text \<open>\<open>std::string::substr(pos, count)\<close>, used only with \<open>pos\<close> inside the string.\<close>

definition substr :: "string \<Rightarrow> nat \<Rightarrow> nat \<Rightarrow> string" where
  "substr s start count = take count (drop start s)"

subsection \<open>The library conversions\<close>

definition digit_value :: "char \<Rightarrow> nat" where
  "digit_value c = of_char c - 48"

definition digits_value :: "string \<Rightarrow> nat" where
  "digits_value s = foldl (\<lambda>a c. 10 * a + digit_value c) 0 s"

text \<open>
  The value of a decimal floating literal \<open>digits [. digits] [(e|E) [+|-] digits]\<close>, the
  only shape of text \<open>lexNumber\<close> passes to \<open>std::stod\<close>.
\<close>

definition exponent_value :: "string \<Rightarrow> int" where
  "exponent_value s =
     (case s of
        [] \<Rightarrow> 0
      | c # r \<Rightarrow>
          if c = CHR ''e'' \<or> c = CHR ''E'' then
            (case r of
               [] \<Rightarrow> 0
             | sg # ds \<Rightarrow>
                 if sg = CHR ''-'' then - int (digits_value ds)
                 else if sg = CHR ''+'' then int (digits_value ds)
                 else int (digits_value r))
          else 0)"

definition scale10 :: "rat \<Rightarrow> int \<Rightarrow> rat" where
  "scale10 m ex = (if 0 \<le> ex then m * 10 ^ nat ex else m / 10 ^ nat (- ex))"

definition decimal_value :: "string \<Rightarrow> rat" where
  "decimal_value s =
     (let ip = takeWhile isdigit s;
          r1 = dropWhile isdigit s;
          fp = (case r1 of [] \<Rightarrow> [] | c # r \<Rightarrow> if c = CHR ''.'' then takeWhile isdigit r else []);
          r2 = (case r1 of [] \<Rightarrow> [] | c # r \<Rightarrow> if c = CHR ''.'' then dropWhile isdigit r else r1)
      in scale10 (of_nat (digits_value (ip @ fp)) / 10 ^ length fp) (exponent_value r2))"

text \<open>
  \<open>std::stod\<close> throws \<open>std::out_of_range\<close> when \<open>strtod\<close> reports a range error, and
  returns the converted value otherwise.
\<close>

definition stod :: "'d fpu \<Rightarrow> string \<Rightarrow> error + 'd" where
  "stod fpu s =
     (if fp_erange fpu (decimal_value s) then Inl (OutOfRange ''stod'')
      else Inr (fp_of_rat fpu (decimal_value s)))"

text \<open>
  \<open>std::stoi\<close> on a non-empty string of digits: it throws \<open>std::out_of_range\<close> when the
  value does not fit a 32-bit \<open>int\<close>.
\<close>

definition stoi :: "string \<Rightarrow> error + int" where
  "stoi s =
     (if 2147483647 < digits_value s then Inl (OutOfRange ''stoi'')
      else Inr (int (digits_value s)))"

section \<open>Lexer\<close>

text \<open>
  The lexer's state is the position \<open>pos_\<close>; \<open>input_\<close> never changes. Each function
  takes the position and returns the new one with its result.
\<close>

definition isAtEnd :: "string \<Rightarrow> nat \<Rightarrow> bool" where
  "isAtEnd input pos = (length input \<le> pos)"

definition currentChar :: "string \<Rightarrow> nat \<Rightarrow> char" where
  "currentChar input pos = (if isAtEnd input pos then CHR 0x00 else input ! pos)"

definition peekChar :: "string \<Rightarrow> nat \<Rightarrow> nat \<Rightarrow> char" where
  "peekChar input pos offset =
     (let idx = pos + offset in if idx < length input then input ! idx else CHR 0x00)"

definition advance :: "string \<Rightarrow> nat \<Rightarrow> nat" where
  "advance input pos = (if \<not> isAtEnd input pos then pos + 1 else pos)"

definition isIdentifierStart :: "char \<Rightarrow> bool" where
  "isIdentifierStart c = (isalpha c \<or> c = CHR ''_'')"

definition isIdentifierPart :: "char \<Rightarrow> bool" where
  "isIdentifierPart c = (isalnum c \<or> c = CHR ''_'')"

lemma isdigit_not_at_end: "isdigit (currentChar input pos) \<Longrightarrow> \<not> isAtEnd input pos"
  by (auto simp: currentChar_def isdigit_def)

lemma isIdentifierPart_not_at_end:
  "isIdentifierPart (currentChar input pos) \<Longrightarrow> \<not> isAtEnd input pos"
  by (auto simp: currentChar_def isIdentifierPart_def isalnum_def isalpha_def isdigit_def)

function skipWhitespace :: "string \<Rightarrow> nat \<Rightarrow> nat" where
  "skipWhitespace input pos =
     (if \<not> isAtEnd input pos \<and> isspace (currentChar input pos)
      then skipWhitespace input (advance input pos) else pos)"
  by pat_completeness auto
termination
  by (relation "measure (\<lambda>(input, pos). length input - pos)")
     (auto simp: isAtEnd_def advance_def)

text \<open>
  The loop \<open>while (std::isdigit(currentChar())) { ...; advance(); }\<close>, which occurs four
  times in the lexer; \<open>count\<close> is the number of iterations (\<open>exp_digits\<close>, \<open>digits\<close>, and
  \<open>has_digits\<close> is "some iteration ran").
\<close>

function digitLoop :: "string \<Rightarrow> nat \<Rightarrow> nat \<Rightarrow> nat \<times> nat" where
  "digitLoop input pos count =
     (if isdigit (currentChar input pos)
      then digitLoop input (advance input pos) (count + 1) else (pos, count))"
  by pat_completeness auto
termination
  by (relation "measure (\<lambda>(input, pos, count). length input - pos)")
     (auto simp: advance_def dest!: isdigit_not_at_end simp: isAtEnd_def)

function identifierLoop :: "string \<Rightarrow> nat \<Rightarrow> nat" where
  "identifierLoop input pos =
     (if isIdentifierPart (currentChar input pos)
      then identifierLoop input (advance input pos) else pos)"
  by pat_completeness auto
termination
  by (relation "measure (\<lambda>(input, pos). length input - pos)")
     (auto simp: advance_def dest!: isIdentifierPart_not_at_end simp: isAtEnd_def)

declare skipWhitespace.simps [simp del] digitLoop.simps [simp del]
  identifierLoop.simps [simp del] show_nat.simps [simp del]

definition lexNumber :: "'d fpu \<Rightarrow> string \<Rightarrow> nat \<Rightarrow> error + ('d Token \<times> nat)" where
  "lexNumber fpu input pos =
     (let start = pos;
          (pos1, n1) = digitLoop input pos 0;
          (pos2, n2) = (if currentChar input pos1 = CHR ''.''
                        then digitLoop input (advance input pos1) 0 else (pos1, 0));
          has_digits = (0 < n1 \<or> 0 < n2)
      in if \<not> has_digits then
           Inl (ParseError (''Unexpected token '' @ [CHR 0x27] @ [currentChar input pos2]
                  @ [CHR 0x27] @ '' at position '' @ show_nat start))
         else
           (case (if currentChar input pos2 = CHR ''e'' \<or> currentChar input pos2 = CHR ''E'' then
                    (let exp_start = pos2;
                         pos3 = advance input pos2;
                         pos4 = (if currentChar input pos3 = CHR ''+''
                                    \<or> currentChar input pos3 = CHR ''-''
                                 then advance input pos3 else pos3);
                         (pos5, exp_digits) = digitLoop input pos4 0
                     in if exp_digits = 0
                        then Inl (ParseError (''Invalid number at position '' @ show_nat exp_start))
                        else Inr pos5)
                  else Inr pos2) of
              Inl err \<Rightarrow> Inl err
            | Inr pos6 \<Rightarrow>
                (let lexeme = substr input start (pos6 - start) in
                 case stod fpu lexeme of
                   Inl err \<Rightarrow> Inl err
                 | Inr v \<Rightarrow>
                     Inr (\<lparr>type = Number, lexeme = lexeme, position = start,
                           number_value = v, history_index = 0\<rparr>, pos6))))"

definition lexIdentifier :: "'d fpu \<Rightarrow> string \<Rightarrow> nat \<Rightarrow> 'd Token \<times> nat" where
  "lexIdentifier fpu input pos =
     (let start = pos;
          pos1 = identifierLoop input pos
      in (\<lparr>type = Identifier, lexeme = substr input start (pos1 - start), position = start,
           number_value = fp_of_rat fpu 0, history_index = 0\<rparr>, pos1))"

definition lexHistoryRef :: "'d fpu \<Rightarrow> string \<Rightarrow> nat \<Rightarrow> error + ('d Token \<times> nat)" where
  "lexHistoryRef fpu input pos =
     (let start = pos;
          pos1 = advance input pos;
          (pos2, digits) = digitLoop input pos1 0
      in if digits = 0 then
           Inl (ParseError (''Unexpected token '' @ [CHR 0x27] @ ''$'' @ [CHR 0x27]
                  @ '' at position '' @ show_nat start))
         else
           (let text = substr input (start + 1) digits in
            case stoi text of
              Inl err \<Rightarrow> Inl err
            | Inr idx \<Rightarrow>
                Inr (\<lparr>type = HistoryRef, lexeme = ''$'' @ text, position = start,
                      number_value = fp_of_rat fpu 0, history_index = idx\<rparr>, pos2)))"

text \<open>The \<open>switch\<close> of \<open>tokenize\<close>; \<open>None\<close> is its \<open>default\<close> branch.\<close>

definition operatorType :: "char \<Rightarrow> TokenType option" where
  "operatorType c =
     (if c = CHR ''+'' then Some PlusTok
      else if c = CHR ''-'' then Some Minus
      else if c = CHR ''*'' then Some Star
      else if c = CHR ''/'' then Some Slash
      else if c = CHR ''%'' then Some Percent
      else if c = CHR ''^'' then Some Caret
      else if c = CHR ''('' then Some LParen
      else if c = CHR '')'' then Some RParen
      else if c = CHR '','' then Some Comma
      else if c = CHR ''='' then Some Assign
      else None)"

definition endToken :: "'d fpu \<Rightarrow> nat \<Rightarrow> 'd Token" where
  "endToken fpu pos =
     \<lparr>type = End, lexeme = [], position = pos, number_value = fp_of_rat fpu 0, history_index = 0\<rparr>"

text \<open>
  The body of the loop of \<open>tokenize\<close>, with the tokens pushed so far. It terminates
  because every branch that continues has moved the position forward.
\<close>

lemma digitLoop_progress:
  "digitLoop input pos count = (pos', count') \<Longrightarrow>
     pos' = pos + (count' - count) \<and> count \<le> count' \<and> pos' \<le> max pos (length input)"
proof (induction input pos count rule: digitLoop.induct)
  case (1 input pos count)
  show ?case
  proof (cases "isdigit (currentChar input pos)")
    case True
    then have "\<not> isAtEnd input pos" by (rule isdigit_not_at_end)
    with True 1 show ?thesis
      by (auto simp: digitLoop.simps [of input pos count] advance_def isAtEnd_def)
  next
    case False
    with 1 show ?thesis by (auto simp: digitLoop.simps [of input pos count])
  qed
qed

lemma skipWhitespace_ge: "pos \<le> skipWhitespace input pos"
proof (induction input pos rule: skipWhitespace.induct)
  case (1 input pos)
  then show ?case
    by (subst skipWhitespace.simps) (auto simp: advance_def)
qed

lemma identifierLoop_ge: "pos \<le> identifierLoop input pos"
proof (induction input pos rule: identifierLoop.induct)
  case (1 input pos)
  then show ?case
    by (subst identifierLoop.simps) (auto simp: advance_def)
qed

lemma identifierLoop_start:
  assumes "isIdentifierStart (currentChar input pos)"
  shows "pos < identifierLoop input pos"
proof -
  from assms have p: "isIdentifierPart (currentChar input pos)"
    by (auto simp: isIdentifierStart_def isIdentifierPart_def isalnum_def)
  then have "\<not> isAtEnd input pos" by (rule isIdentifierPart_not_at_end)
  then have "advance input pos = pos + 1" by (simp add: advance_def)
  with p identifierLoop_ge [of "pos + 1" input] show ?thesis
    by (subst identifierLoop.simps) auto
qed

lemma lexIdentifier_progress:
  "isIdentifierStart (currentChar input pos) \<Longrightarrow> lexIdentifier fpu input pos = (tok, pos')
     \<Longrightarrow> pos < pos'"
  by (auto simp: lexIdentifier_def Let_def identifierLoop_start)

lemma lexHistoryRef_progress:
  "\<not> isAtEnd input pos \<Longrightarrow> lexHistoryRef fpu input pos = Inr (tok, pos') \<Longrightarrow> pos < pos'"
  by (auto simp: lexHistoryRef_def Let_def advance_def split: prod.splits if_splits sum.splits
      dest!: digitLoop_progress)

lemma lexNumber_progress: "lexNumber fpu input pos = Inr (tok, pos') \<Longrightarrow> pos < pos'"
  by (auto simp: lexNumber_def Let_def advance_def split: prod.splits if_splits sum.splits
      dest!: digitLoop_progress)

function tokenizeLoop :: "'d fpu \<Rightarrow> string \<Rightarrow> nat \<Rightarrow> 'd Token list \<Rightarrow> error + 'd Token list" where
  "tokenizeLoop fpu input pos tokens =
     (if isAtEnd input pos then Inr (tokens @ [endToken fpu pos])
      else
        (let pos1 = skipWhitespace input pos in
         if isAtEnd input pos1 then Inr (tokens @ [endToken fpu pos1])
         else
           (let c = currentChar input pos1;
                token_pos = pos1
            in if isdigit c \<or> (c = CHR ''.'' \<and> isdigit (peekChar input pos1 1)) then
                 (case lexNumber fpu input pos1 of
                    Inl err \<Rightarrow> Inl err
                  | Inr (tok, pos2) \<Rightarrow> tokenizeLoop fpu input pos2 (tokens @ [tok]))
               else if isIdentifierStart c then
                 (case lexIdentifier fpu input pos1 of
                    (tok, pos2) \<Rightarrow> tokenizeLoop fpu input pos2 (tokens @ [tok]))
               else if c = CHR ''$'' then
                 (case lexHistoryRef fpu input pos1 of
                    Inl err \<Rightarrow> Inl err
                  | Inr (tok, pos2) \<Rightarrow> tokenizeLoop fpu input pos2 (tokens @ [tok]))
               else
                 (let pos2 = advance input pos1 in
                  case operatorType c of
                    None \<Rightarrow>
                      Inl (ParseError (''Unexpected token '' @ [CHR 0x27] @ [c] @ [CHR 0x27]
                             @ '' at position '' @ show_nat token_pos))
                  | Some ty \<Rightarrow>
                      tokenizeLoop fpu input pos2
                        (tokens @ [\<lparr>type = ty, lexeme = [c], position = token_pos,
                                    number_value = fp_of_rat fpu 0, history_index = 0\<rparr>])))))"
  by pat_completeness auto
termination
proof (relation "measure (\<lambda>(fpu, input, pos, tokens). length input - pos)", goal_cases)
  case 1
  show ?case by simp
next
  case (2 fpu input pos tokens pos1 c token_pos tok_pos tok pos2)
  then show ?case
    using skipWhitespace_ge [of pos input] lexNumber_progress [of fpu input pos1 tok pos2]
    by (auto simp: isAtEnd_def)
next
  case (3 fpu input pos tokens pos1 c token_pos tok pos2)
  then show ?case
    using skipWhitespace_ge [of pos input] lexIdentifier_progress [of input pos1 fpu tok pos2]
    by (auto simp: isAtEnd_def)
next
  case (4 fpu input pos tokens pos1 c token_pos tok_pos tok pos2)
  then show ?case
    using skipWhitespace_ge [of pos input] lexHistoryRef_progress [of input pos1 fpu tok pos2]
    by (auto simp: isAtEnd_def)
next
  case (5 fpu input pos tokens pos1 c token_pos pos2 ty)
  then show ?case
    using skipWhitespace_ge [of pos input]
    by (auto simp: isAtEnd_def advance_def)
qed

declare tokenizeLoop.simps [simp del]

text \<open>\<open>Lexer::tokenize\<close> on a lexer constructed with \<open>input\<close> (\<open>pos_ = 0\<close>).\<close>

definition tokenize :: "'d fpu \<Rightarrow> string \<Rightarrow> error + 'd Token list" where
  "tokenize fpu input = tokenizeLoop fpu input 0 []"

section \<open>Parser\<close>

text \<open>
  The parser's state is the index \<open>pos_\<close> into the token vector \<open>tokens_\<close>, which never
  changes. \<open>Parser::advance\<close> is written \<open>Parser_advance\<close>; the token it returns is never
  used by its callers, so only its effect on the index is kept.
\<close>

definition current :: "'d Token list \<Rightarrow> nat \<Rightarrow> 'd Token" where
  "current tokens pos = tokens ! pos"

definition peek :: "'d Token list \<Rightarrow> nat \<Rightarrow> nat \<Rightarrow> 'd Token" where
  "peek tokens pos offset =
     (let idx = pos + offset in if length tokens \<le> idx then last tokens else tokens ! idx)"

definition check :: "'d Token list \<Rightarrow> nat \<Rightarrow> TokenType \<Rightarrow> bool" where
  "check tokens pos ty = (type (current tokens pos) = ty)"

definition Parser_advance :: "'d Token list \<Rightarrow> nat \<Rightarrow> nat" where
  "Parser_advance tokens pos = (if pos < length tokens - 1 then pos + 1 else pos)"

definition match :: "'d Token list \<Rightarrow> nat \<Rightarrow> TokenType \<Rightarrow> bool \<times> nat" where
  "match tokens pos ty =
     (if \<not> check tokens pos ty then (False, pos) else (True, Parser_advance tokens pos))"

definition throwUnexpected :: "'d Token \<Rightarrow> error" where
  "throwUnexpected token =
     (let shown = (if lexeme token = [] then ''<end>'' else lexeme token)
      in ParseError (''Unexpected token '' @ [CHR 0x27] @ shown @ [CHR 0x27]
            @ '' at position '' @ show_nat (position token)))"

definition expect :: "'d Token list \<Rightarrow> nat \<Rightarrow> TokenType \<Rightarrow> error + nat" where
  "expect tokens pos ty =
     (if \<not> check tokens pos ty then Inl (throwUnexpected (current tokens pos))
      else Inr (Parser_advance tokens pos))"

text \<open>
  The parsing functions call each other recursively, and on a token vector that does not
  end with an \<open>End\<close> token the recursion of the source need not stop. They are therefore
  defined with a bound on the depth of the calls: \<open>None\<close> means that the bound was
  reached, \<open>Some (Inl err)\<close> that \<open>err\<close> was thrown, and \<open>Some (Inr (node, pos))\<close> that
  the function returned \<open>node\<close> and left the parser at \<open>pos\<close>. The two \<open>while (true)\<close>
  loops are \<open>additiveLoop\<close> and \<open>multiplicativeLoop\<close>, the argument loop of
  \<open>parsePrimary\<close> is \<open>argumentLoop\<close>.
\<close>

type_synonym 'a presult = "(error + 'a) option"

definition then_parse :: "'a presult \<Rightarrow> ('a \<Rightarrow> 'b presult) \<Rightarrow> 'b presult" where
  "then_parse r k = (case r of None \<Rightarrow> None | Some (Inl err) \<Rightarrow> Some (Inl err) | Some (Inr x) \<Rightarrow> k x)"

function parseExpression :: "nat \<Rightarrow> 'd Token list \<Rightarrow> nat \<Rightarrow> ('d Node \<times> nat) presult"
  and parseAdditive :: "nat \<Rightarrow> 'd Token list \<Rightarrow> nat \<Rightarrow> ('d Node \<times> nat) presult"
  and additiveLoop :: "nat \<Rightarrow> 'd Token list \<Rightarrow> 'd Node \<Rightarrow> nat \<Rightarrow> ('d Node \<times> nat) presult"
  and parseMultiplicative :: "nat \<Rightarrow> 'd Token list \<Rightarrow> nat \<Rightarrow> ('d Node \<times> nat) presult"
  and multiplicativeLoop :: "nat \<Rightarrow> 'd Token list \<Rightarrow> 'd Node \<Rightarrow> nat \<Rightarrow> ('d Node \<times> nat) presult"
  and parseUnary :: "nat \<Rightarrow> 'd Token list \<Rightarrow> nat \<Rightarrow> ('d Node \<times> nat) presult"
  and parsePower :: "nat \<Rightarrow> 'd Token list \<Rightarrow> nat \<Rightarrow> ('d Node \<times> nat) presult"
  and parsePrimary :: "nat \<Rightarrow> 'd Token list \<Rightarrow> nat \<Rightarrow> ('d Node \<times> nat) presult"
  and argumentLoop :: "nat \<Rightarrow> 'd Token list \<Rightarrow> 'd Node list \<Rightarrow> nat \<Rightarrow> ('d Node list \<times> nat) presult"
where
  "parseExpression 0 tokens pos = None"
| "parseExpression (Suc n) tokens pos = parseAdditive n tokens pos"
| "parseAdditive 0 tokens pos = None"
| "parseAdditive (Suc n) tokens pos =
     then_parse (parseMultiplicative n tokens pos) (\<lambda>(node, pos1). additiveLoop n tokens node pos1)"
| "additiveLoop 0 tokens node pos = None"
| "additiveLoop (Suc n) tokens node pos =
     (if fst (match tokens pos PlusTok) then
        then_parse (parseMultiplicative n tokens (snd (match tokens pos PlusTok)))
          (\<lambda>(rhs, pos2). additiveLoop n tokens (BinaryNode Add node rhs) pos2)
      else if fst (match tokens pos Minus) then
        then_parse (parseMultiplicative n tokens (snd (match tokens pos Minus)))
          (\<lambda>(rhs, pos2). additiveLoop n tokens (BinaryNode Subtract node rhs) pos2)
      else Some (Inr (node, pos)))"
| "parseMultiplicative 0 tokens pos = None"
| "parseMultiplicative (Suc n) tokens pos =
     then_parse (parseUnary n tokens pos) (\<lambda>(node, pos1). multiplicativeLoop n tokens node pos1)"
| "multiplicativeLoop 0 tokens node pos = None"
| "multiplicativeLoop (Suc n) tokens node pos =
     (if fst (match tokens pos Star) then
        then_parse (parseUnary n tokens (snd (match tokens pos Star)))
          (\<lambda>(rhs, pos2). multiplicativeLoop n tokens (BinaryNode Multiply node rhs) pos2)
      else if fst (match tokens pos Slash) then
        then_parse (parseUnary n tokens (snd (match tokens pos Slash)))
          (\<lambda>(rhs, pos2). multiplicativeLoop n tokens (BinaryNode Divide node rhs) pos2)
      else if fst (match tokens pos Percent) then
        then_parse (parseUnary n tokens (snd (match tokens pos Percent)))
          (\<lambda>(rhs, pos2). multiplicativeLoop n tokens (BinaryNode Modulo node rhs) pos2)
      else Some (Inr (node, pos)))"
| "parseUnary 0 tokens pos = None"
| "parseUnary (Suc n) tokens pos =
     (if fst (match tokens pos Minus) then
        then_parse (parseUnary n tokens (snd (match tokens pos Minus)))
          (\<lambda>(operand, pos2). Some (Inr (UnaryNode Negate operand, pos2)))
      else parsePower n tokens pos)"
| "parsePower 0 tokens pos = None"
| "parsePower (Suc n) tokens pos =
     then_parse (parsePrimary n tokens pos)
       (\<lambda>(node, pos1).
          if fst (match tokens pos1 Caret) then
            then_parse (parseUnary n tokens (snd (match tokens pos1 Caret)))
              (\<lambda>(rhs, pos3). Some (Inr (BinaryNode Power node rhs, pos3)))
          else Some (Inr (node, pos1)))"
| "parsePrimary 0 tokens pos = None"
| "parsePrimary (Suc n) tokens pos =
     (if fst (match tokens pos Number) then
        (let pos1 = snd (match tokens pos Number)
         in Some (Inr (NumberNode (number_value (tokens ! (pos1 - 1))), pos1)))
      else if fst (match tokens pos HistoryRef) then
        (let pos1 = snd (match tokens pos HistoryRef)
         in Some (Inr (HistoryRefNode (history_index (tokens ! (pos1 - 1))), pos1)))
      else if fst (match tokens pos Identifier) then
        (let pos1 = snd (match tokens pos Identifier);
             ident = tokens ! (pos1 - 1)
         in if fst (match tokens pos1 LParen) then
              (let pos2 = snd (match tokens pos1 LParen)
               in then_parse
                    (if \<not> check tokens pos2 RParen then argumentLoop n tokens [] pos2
                     else Some (Inr ([], pos2)))
                    (\<lambda>(args, pos3).
                       case expect tokens pos3 RParen of
                         Inl err \<Rightarrow> Some (Inl err)
                       | Inr pos4 \<Rightarrow> Some (Inr (CallNode (lexeme ident) args, pos4))))
            else Some (Inr (VariableNode (lexeme ident), pos1)))
      else if fst (match tokens pos LParen) then
        then_parse (parseExpression n tokens (snd (match tokens pos LParen)))
          (\<lambda>(node, pos2).
             case expect tokens pos2 RParen of
               Inl err \<Rightarrow> Some (Inl err)
             | Inr pos3 \<Rightarrow> Some (Inr (node, pos3)))
      else Some (Inl (throwUnexpected (current tokens pos))))"
| "argumentLoop 0 tokens args pos = None"
| "argumentLoop (Suc n) tokens args pos =
     then_parse (parseExpression n tokens pos)
       (\<lambda>(arg, pos1).
          if \<not> fst (match tokens pos1 Comma) then Some (Inr (args @ [arg], pos1))
          else argumentLoop n tokens (args @ [arg]) (snd (match tokens pos1 Comma)))"
  by pat_completeness auto
termination
  by (relation "measure (case_sum (case_sum (case_sum fst fst) (case_sum fst fst))
        (case_sum (case_sum fst fst) (case_sum fst (case_sum fst fst))))") auto

definition parseStatement :: "nat \<Rightarrow> 'd Token list \<Rightarrow> 'd Node presult" where
  "parseStatement fuel tokens =
     then_parse
       (if check tokens 0 Identifier \<and> type (peek tokens 0 1) = Assign then
          (let name = lexeme (current tokens 0);
               pos1 = Parser_advance tokens 0;
               pos2 = Parser_advance tokens pos1
           in then_parse (parseExpression fuel tokens pos2)
                (\<lambda>(expression, pos3). Some (Inr (AssignmentNode name expression, pos3))))
        else parseExpression fuel tokens 0)
       (\<lambda>(node, pos).
          if \<not> check tokens pos End then Some (Inl (throwUnexpected (current tokens pos)))
          else Some (Inr node))"

section \<open>Evaluation context\<close>

text \<open>
  \<open>class EvaluationContext\<close>: the \<open>unordered_map\<close> of variables and the vector of past
  results. A member function that throws leaves the context as it is, so only the
  functions that change it return a context.
\<close>

record 'd EvaluationContext =
  variables :: "string \<rightharpoonup> 'd"
  history :: "'d list"

text \<open>The constructor: \<open>pi = std::acos(-1.0)\<close>, \<open>e = std::exp(1.0)\<close>, no history.\<close>

definition newContext :: "'d fpu \<Rightarrow> 'd EvaluationContext" where
  "newContext fpu =
     \<lparr>variables = [''pi'' \<mapsto> fp_acos fpu (fp_of_rat fpu (- 1)),
                   ''e'' \<mapsto> fp_exp fpu (fp_of_rat fpu 1)],
      history = []\<rparr>"

definition hasVariable :: "'d EvaluationContext \<Rightarrow> string \<Rightarrow> bool" where
  "hasVariable context name = (variables context name \<noteq> None)"

definition getVariable :: "'d EvaluationContext \<Rightarrow> string \<Rightarrow> error + 'd" where
  "getVariable context name =
     (case variables context name of
        None \<Rightarrow> Inl (EvalError (''Unknown variable '' @ [CHR 0x27] @ name @ [CHR 0x27]))
      | Some v \<Rightarrow> Inr v)"

definition setVariable ::
  "'d EvaluationContext \<Rightarrow> string \<Rightarrow> 'd \<Rightarrow> (error + unit) \<times> 'd EvaluationContext" where
  "setVariable context name v =
     (if name = ''pi'' \<or> name = ''e'' then
        (Inl (EvalError (''Cannot assign to constant '' @ [CHR 0x27] @ name @ [CHR 0x27])), context)
      else (Inr (), context\<lparr>variables := (variables context)(name \<mapsto> v)\<rparr>))"

definition pushHistory :: "'d EvaluationContext \<Rightarrow> 'd \<Rightarrow> 'd EvaluationContext" where
  "pushHistory context v = context\<lparr>history := history context @ [v]\<rparr>"

text \<open>
  \<open>one_based_index\<close> is an \<open>int\<close>; converted to \<open>std::size_t\<close> only when positive, so
  the conversion keeps its value.
\<close>

definition getHistoryValue :: "'d EvaluationContext \<Rightarrow> int \<Rightarrow> error + 'd" where
  "getHistoryValue context one_based_index =
     (if one_based_index \<le> 0 \<or> length (history context) < nat one_based_index then
        Inl (EvalError (''History reference '' @ [CHR 0x27] @ ''$'' @ show_int one_based_index
               @ [CHR 0x27] @ '' out of range''))
      else Inr (history context ! nat (one_based_index - 1)))"

section \<open>Evaluator\<close>

definition kZeroEpsilon :: "'d fpu \<Rightarrow> 'd" where
  "kZeroEpsilon fpu = fp_of_rat fpu (1 / 10 ^ 12)"

definition plural :: "nat \<Rightarrow> string" where
  "plural n = (if n = 1 then [] else ''s'')"

definition requireArgCount :: "string \<Rightarrow> 'd list \<Rightarrow> nat \<Rightarrow> error + unit" where
  "requireArgCount name args expected =
     (if length args \<noteq> expected then
        Inl (EvalError (''Function '' @ [CHR 0x27] @ name @ [CHR 0x27] @ '' expects ''
               @ show_nat expected @ '' argument'' @ plural expected
               @ '' but got '' @ show_nat (length args)))
      else Inr ())"

definition requireAtLeastArgs :: "string \<Rightarrow> 'd list \<Rightarrow> nat \<Rightarrow> error + unit" where
  "requireAtLeastArgs name args min_count =
     (if length args < min_count then
        Inl (EvalError (''Function '' @ [CHR 0x27] @ name @ [CHR 0x27] @ '' expects at least ''
               @ show_nat min_count @ '' argument'' @ plural min_count
               @ '' but got '' @ show_nat (length args)))
      else Inr ())"

text \<open>
  \<open>*std::min_element(first, last)\<close> and \<open>*std::max_element(first, last)\<close> on a non-empty
  range: the first smallest, and the first largest, element under \<open>operator<\<close>.
\<close>

definition min_element :: "'d fpu \<Rightarrow> 'd list \<Rightarrow> 'd" where
  "min_element fpu xs = foldl (\<lambda>smallest x. if fp_less fpu x smallest then x else smallest) (hd xs) (tl xs)"

definition max_element :: "'d fpu \<Rightarrow> 'd list \<Rightarrow> 'd" where
  "max_element fpu xs = foldl (\<lambda>largest x. if fp_less fpu largest x then x else largest) (hd xs) (tl xs)"

text \<open>The \<open>switch\<close> of \<open>evalBinary\<close>, on the values of the two operands.\<close>

definition applyBinary :: "'d fpu \<Rightarrow> BinaryOp \<Rightarrow> 'd \<Rightarrow> 'd \<Rightarrow> error + 'd" where
  "applyBinary fpu op lhs rhs =
     (case op of
        Add \<Rightarrow> Inr (fp_add fpu lhs rhs)
      | Subtract \<Rightarrow> Inr (fp_sub fpu lhs rhs)
      | Multiply \<Rightarrow> Inr (fp_mul fpu lhs rhs)
      | Divide \<Rightarrow>
          if fp_less fpu (fp_abs fpu rhs) (kZeroEpsilon fpu) then Inl (EvalError ''Division by zero'')
          else Inr (fp_div fpu lhs rhs)
      | Modulo \<Rightarrow>
          if fp_less fpu (fp_abs fpu rhs) (kZeroEpsilon fpu) then Inl (EvalError ''Modulo by zero'')
          else Inr (fp_fmod fpu lhs rhs)
      | Power \<Rightarrow> Inr (fp_pow fpu lhs rhs))"

text \<open>The chain of name tests of \<open>evalCall\<close>, on the values of the arguments.\<close>

definition unaryBuiltin :: "string \<Rightarrow> 'd list \<Rightarrow> ('d \<Rightarrow> 'd) \<Rightarrow> error + 'd" where
  "unaryBuiltin fn args f =
     (case requireArgCount fn args 1 of Inl err \<Rightarrow> Inl err | Inr u \<Rightarrow> Inr (f (args ! 0)))"

definition callBuiltin :: "'d fpu \<Rightarrow> string \<Rightarrow> 'd list \<Rightarrow> error + 'd" where
  "callBuiltin fpu fn args =
     (if fn = ''sin'' then unaryBuiltin fn args (fp_sin fpu)
      else if fn = ''cos'' then unaryBuiltin fn args (fp_cos fpu)
      else if fn = ''tan'' then unaryBuiltin fn args (fp_tan fpu)
      else if fn = ''sqrt'' then unaryBuiltin fn args (fp_sqrt fpu)
      else if fn = ''log'' then unaryBuiltin fn args (fp_log fpu)
      else if fn = ''log10'' then unaryBuiltin fn args (fp_log10 fpu)
      else if fn = ''abs'' then unaryBuiltin fn args (fp_abs fpu)
      else if fn = ''ceil'' then unaryBuiltin fn args (fp_ceil fpu)
      else if fn = ''floor'' then unaryBuiltin fn args (fp_floor fpu)
      else if fn = ''min'' then
        (case requireAtLeastArgs fn args 1 of
           Inl err \<Rightarrow> Inl err | Inr u \<Rightarrow> Inr (min_element fpu args))
      else if fn = ''max'' then
        (case requireAtLeastArgs fn args 1 of
           Inl err \<Rightarrow> Inl err | Inr u \<Rightarrow> Inr (max_element fpu args))
      else Inl (EvalError (''Unknown function '' @ [CHR 0x27] @ fn @ [CHR 0x27])))"

text \<open>
  The tree walk. Every function returns the context it leaves behind together with its
  value or the exception it throws, so that what a failed walk did to the context is
  part of its result. The argument loop of \<open>evalCall\<close> is \<open>evalArguments\<close>; \<open>evalUnary\<close>,
  \<open>evalBinary\<close> and \<open>evalCall\<close> take the fields of their node.
\<close>

function evalNode :: "'d fpu \<Rightarrow> 'd Node \<Rightarrow> 'd EvaluationContext \<Rightarrow> (error + 'd) \<times> 'd EvaluationContext"
  and evalUnary ::
    "'d fpu \<Rightarrow> UnaryOp \<Rightarrow> 'd Node \<Rightarrow> 'd EvaluationContext \<Rightarrow> (error + 'd) \<times> 'd EvaluationContext"
  and evalBinary ::
    "'d fpu \<Rightarrow> BinaryOp \<Rightarrow> 'd Node \<Rightarrow> 'd Node \<Rightarrow> 'd EvaluationContext
       \<Rightarrow> (error + 'd) \<times> 'd EvaluationContext"
  and evalCall ::
    "'d fpu \<Rightarrow> string \<Rightarrow> 'd Node list \<Rightarrow> 'd EvaluationContext
       \<Rightarrow> (error + 'd) \<times> 'd EvaluationContext"
  and evalArguments ::
    "'d fpu \<Rightarrow> 'd Node list \<Rightarrow> 'd list \<Rightarrow> 'd EvaluationContext
       \<Rightarrow> (error + 'd list) \<times> 'd EvaluationContext"
where
  "evalNode fpu (NumberNode v) context = (Inr v, context)"
| "evalNode fpu (VariableNode name) context = (getVariable context name, context)"
| "evalNode fpu (HistoryRefNode index) context = (getHistoryValue context index, context)"
| "evalNode fpu (UnaryNode op operand) context = evalUnary fpu op operand context"
| "evalNode fpu (BinaryNode op left right) context = evalBinary fpu op left right context"
| "evalNode fpu (CallNode name args) context = evalCall fpu name args context"
| "evalNode fpu (AssignmentNode name expression) context =
     (case evalNode fpu expression context of
        (Inl err, context1) \<Rightarrow> (Inl err, context1)
      | (Inr v, context1) \<Rightarrow>
          (case setVariable context1 name v of
             (Inl err, context2) \<Rightarrow> (Inl err, context2)
           | (Inr u, context2) \<Rightarrow> (Inr v, context2)))"
| "evalUnary fpu op operand context =
     (case evalNode fpu operand context of
        (Inl err, context1) \<Rightarrow> (Inl err, context1)
      | (Inr v, context1) \<Rightarrow> (case op of Negate \<Rightarrow> (Inr (fp_neg fpu v), context1)))"
| "evalBinary fpu op left right context =
     (case evalNode fpu left context of
        (Inl err, context1) \<Rightarrow> (Inl err, context1)
      | (Inr lhs, context1) \<Rightarrow>
          (case evalNode fpu right context1 of
             (Inl err, context2) \<Rightarrow> (Inl err, context2)
           | (Inr rhs, context2) \<Rightarrow> (applyBinary fpu op lhs rhs, context2)))"
| "evalCall fpu name args context =
     (case evalArguments fpu args [] context of
        (Inl err, context1) \<Rightarrow> (Inl err, context1)
      | (Inr vs, context1) \<Rightarrow> (callBuiltin fpu name vs, context1))"
| "evalArguments fpu [] vs context = (Inr vs, context)"
| "evalArguments fpu (arg # args) vs context =
     (case evalNode fpu arg context of
        (Inl err, context1) \<Rightarrow> (Inl err, context1)
      | (Inr v, context1) \<Rightarrow> evalArguments fpu args (vs @ [v]) context1)"
  by pat_completeness auto
termination
  by (relation "measure (case_sum
        (case_sum (\<lambda>(fpu, node, c). 2 * size node)
           (\<lambda>(fpu, op, operand, c). 2 * size operand + 1))
        (case_sum (\<lambda>(fpu, op, left, right, c). 2 * (size left + size right) + 1)
           (case_sum (\<lambda>(fpu, name, args, c). 2 * size_list size args + 1)
              (\<lambda>(fpu, args, vs, c). 2 * size_list size args))))") auto

definition Evaluator_evaluate ::
  "'d fpu \<Rightarrow> 'd Node \<Rightarrow> 'd EvaluationContext \<Rightarrow> (error + 'd) \<times> 'd EvaluationContext" where
  "Evaluator_evaluate fpu node context = evalNode fpu node context"

section \<open>Calculator\<close>

text \<open>
  A depth of \<open>9 * (number of tokens) + 9\<close> calls is enough for the parser on every token
  vector the lexer produces (lemma \<open>parseStatement_total\<close> below), so \<open>evaluate\<close> on a
  \<open>Calculator\<close> whose context is \<open>context\<close> always returns; its result is the value or
  the exception, and the context after the call.
\<close>

definition parseDepth :: "'d Token list \<Rightarrow> nat" where
  "parseDepth tokens = 9 * length tokens + 9"

definition evaluate ::
  "'d fpu \<Rightarrow> string \<Rightarrow> 'd EvaluationContext \<Rightarrow> ((error + 'd) \<times> 'd EvaluationContext) option" where
  "evaluate fpu expression context =
     (case tokenize fpu expression of
        Inl err \<Rightarrow> Some (Inl err, context)
      | Inr tokens \<Rightarrow>
          (case parseStatement (parseDepth tokens) tokens of
             None \<Rightarrow> None
           | Some (Inl err) \<Rightarrow> Some (Inl err, context)
           | Some (Inr ast) \<Rightarrow>
               (case Evaluator_evaluate fpu ast context of
                  (Inl err, context1) \<Rightarrow> Some (Inl err, context1)
                | (Inr v, context1) \<Rightarrow> Some (Inr v, pushHistory context1 v))))"

section \<open>An idealised floating-point unit\<close>

text \<open>
  Exact arithmetic on the reals, for the statements about particular values. It agrees
  with IEEE 754 \<open>double\<close> arithmetic wherever the operands and the exact result are
  representable, which is the case for every value computed below (small integers and
  \<open>0.25\<close>); it has neither rounding nor infinities nor NaN. \<open>strtod\<close> reports a range
  error for a magnitude that rounds to infinity (at least \<open>2^1024 - 2^970\<close>) and for a
  non-zero magnitude below the smallest normal number \<open>2^-1022\<close>.
\<close>

definition ideal_pow :: "real \<Rightarrow> real \<Rightarrow> real" where
  "ideal_pow x y =
     (if y \<in> \<int> then (if 0 \<le> y then x ^ nat \<lfloor>y\<rfloor> else 1 / x ^ nat \<lfloor>- y\<rfloor>) else x powr y)"

definition ideal_fmod :: "real \<Rightarrow> real \<Rightarrow> real" where
  "ideal_fmod x y = x - y * of_int (if 0 \<le> x / y then \<lfloor>x / y\<rfloor> else \<lceil>x / y\<rceil>)"

definition ideal_fpu :: "real fpu" where
  "ideal_fpu =
     \<lparr>fp_of_rat = of_rat,
      fp_erange = (\<lambda>q. 2 ^ 1024 - 2 ^ 970 \<le> \<bar>q\<bar> \<or> (0 < \<bar>q\<bar> \<and> \<bar>q\<bar> < 1 / 2 ^ 1022)),
      fp_less = (<), fp_neg = uminus, fp_add = (+), fp_sub = (-), fp_mul = (*), fp_div = (/),
      fp_fmod = ideal_fmod, fp_pow = ideal_pow, fp_abs = abs, fp_sin = sin, fp_cos = cos,
      fp_tan = tan, fp_sqrt = sqrt, fp_log = ln, fp_log10 = log 10,
      fp_ceil = (\<lambda>x. of_int \<lceil>x\<rceil>), fp_floor = (\<lambda>x. of_int \<lfloor>x\<rfloor>),
      fp_acos = arccos, fp_exp = exp\<rparr>"

section \<open>Properties of trees, token sequences and results\<close>

text \<open>
  The predicates in which the statements below are written. \<open>assignmentFree\<close> holds of a
  tree without \<open>AssignmentNode\<close>; \<open>statementNode\<close> of a tree whose only assignment, if any,
  is its root.
\<close>

fun assignmentFree :: "'d Node \<Rightarrow> bool" where
  "assignmentFree (NumberNode v) = True"
| "assignmentFree (VariableNode name) = True"
| "assignmentFree (HistoryRefNode index) = True"
| "assignmentFree (UnaryNode op operand) = assignmentFree operand"
| "assignmentFree (BinaryNode op left right) = (assignmentFree left \<and> assignmentFree right)"
| "assignmentFree (CallNode name args) = list_all assignmentFree args"
| "assignmentFree (AssignmentNode name expression) = False"

fun statementNode :: "'d Node \<Rightarrow> bool" where
  "statementNode (AssignmentNode name expression) = assignmentFree expression"
| "statementNode (NumberNode v) = True"
| "statementNode (VariableNode name) = True"
| "statementNode (HistoryRefNode index) = True"
| "statementNode (UnaryNode op operand) = assignmentFree operand"
| "statementNode (BinaryNode op left right) = (assignmentFree left \<and> assignmentFree right)"
| "statementNode (CallNode name args) = list_all assignmentFree args"

text \<open>
  A token sequence as \<open>tokenize\<close> builds it ends with the \<open>End\<close> token. \<open>assignmentTarget\<close>
  is the test with which \<open>parseStatement\<close> recognises an assignment: an identifier followed
  by \<open>=\<close>; it gives the name assigned to.
\<close>

definition wellFormed :: "'d Token list \<Rightarrow> bool" where
  "wellFormed tokens = (tokens \<noteq> [] \<and> type (last tokens) = End)"

definition assignmentTarget :: "'d Token list \<Rightarrow> string option" where
  "assignmentTarget tokens =
     (if check tokens 0 Identifier \<and> type (peek tokens 0 1) = Assign
      then Some (lexeme (current tokens 0)) else None)"

text \<open>
  Results of the parsing functions: \<open>advances\<close> and \<open>keeps\<close> bound the position after a
  successful parse, \<open>returns\<close> says that the depth bound was not reached, \<open>extends\<close> that
  a result obtained with one bound is obtained with another, and \<open>returnsAt f x\<close> that the
  parsing function \<open>f\<close> returns \<open>x\<close> for some bound (hence, by \<open>extends\<close>, for every larger
  one).
\<close>

definition advances :: "nat \<Rightarrow> nat \<Rightarrow> ('a \<times> nat) presult \<Rightarrow> bool" where
  "advances len pos r = (\<forall>x pos'. r = Some (Inr (x, pos')) \<longrightarrow> pos < pos' \<and> pos' < len)"

definition keeps :: "nat \<Rightarrow> nat \<Rightarrow> ('a \<times> nat) presult \<Rightarrow> bool" where
  "keeps len pos r = (\<forall>x pos'. r = Some (Inr (x, pos')) \<longrightarrow> pos \<le> pos' \<and> pos' < len)"

definition returns :: "'a presult \<Rightarrow> bool" where
  "returns r = (r \<noteq> None)"

definition extends :: "'a presult \<Rightarrow> 'a presult \<Rightarrow> bool" where
  "extends r r' = (\<forall>x. r = Some x \<longrightarrow> r' = Some x)"

definition returnsAt :: "(nat \<Rightarrow> 'a presult) \<Rightarrow> 'a \<Rightarrow> bool" where
  "returnsAt f x = (\<exists>n. f n = Some (Inr x))"

text \<open>Results of the lexer: a token sequence is well formed, an error is not an \<open>EvalError\<close>.\<close>

definition lexOk :: "(error + 'd Token list) \<Rightarrow> bool" where
  "lexOk r = (\<forall>tokens. r = Inr tokens \<longrightarrow> wellFormed tokens)"

definition lexErr :: "(error + 'd Token list) \<Rightarrow> bool" where
  "lexErr r = (\<forall>err. r = Inl err \<longrightarrow> \<not> isEvalError err)"











text \<open>
  The contexts of a session: the context of a new \<open>Calculator\<close>, and the context left by
  any \<open>evaluate\<close> call, failed or not, on a context of the session.
\<close>

inductive reachable :: "'d fpu \<Rightarrow> 'd EvaluationContext \<Rightarrow> bool" for fpu :: "'d fpu" where
  start: "reachable fpu (newContext fpu)"
| step: "reachable fpu c \<Longrightarrow> evaluate fpu expression c = Some (r, c') \<Longrightarrow> reachable fpu c'"

section \<open>Rules for running the definitions on concrete input\<close>

lemma ideal_fpu_simps:
  "fp_of_rat ideal_fpu = of_rat"
  "fp_erange ideal_fpu = (\<lambda>q. 2 ^ 1024 - 2 ^ 970 \<le> \<bar>q\<bar> \<or> (0 < \<bar>q\<bar> \<and> \<bar>q\<bar> < 1 / 2 ^ 1022))"
  "fp_less ideal_fpu = (<)" "fp_neg ideal_fpu = uminus" "fp_add ideal_fpu = (+)"
  "fp_sub ideal_fpu = (-)" "fp_mul ideal_fpu = (*)" "fp_div ideal_fpu = (/)"
  "fp_fmod ideal_fpu = ideal_fmod" "fp_pow ideal_fpu = ideal_pow" "fp_abs ideal_fpu = abs"
  "fp_acos ideal_fpu = arccos" "fp_exp ideal_fpu = exp"
  by (simp_all add: ideal_fpu_def)

lemma skipWhitespace_step:
  "\<not> isAtEnd input pos \<Longrightarrow> isspace (currentChar input pos) \<Longrightarrow>
     skipWhitespace input pos = skipWhitespace input (Suc pos)"
  by (subst skipWhitespace.simps) (simp add: advance_def)

lemma skipWhitespace_stop:
  "isAtEnd input pos \<or> \<not> isspace (currentChar input pos) \<Longrightarrow> skipWhitespace input pos = pos"
  by (subst skipWhitespace.simps) auto

lemma digitLoop_step:
  "isdigit (currentChar input pos) \<Longrightarrow>
     digitLoop input pos count = digitLoop input (Suc pos) (Suc count)"
  by (subst digitLoop.simps) (auto simp: advance_def dest: isdigit_not_at_end)

lemma digitLoop_stop:
  "\<not> isdigit (currentChar input pos) \<Longrightarrow> digitLoop input pos count = (pos, count)"
  by (subst digitLoop.simps) simp

lemma identifierLoop_step:
  "isIdentifierPart (currentChar input pos) \<Longrightarrow>
     identifierLoop input pos = identifierLoop input (Suc pos)"
  by (subst identifierLoop.simps) (auto simp: advance_def dest: isIdentifierPart_not_at_end)

lemma identifierLoop_stop:
  "\<not> isIdentifierPart (currentChar input pos) \<Longrightarrow> identifierLoop input pos = pos"
  by (subst identifierLoop.simps) simp

lemma tokenizeLoop_end:
  "isAtEnd input pos \<Longrightarrow> tokenizeLoop fpu input pos tokens = Inr (tokens @ [endToken fpu pos])"
  by (subst tokenizeLoop.simps) simp

lemma tokenizeLoop_step:
  "\<not> isAtEnd input pos \<Longrightarrow>
   tokenizeLoop fpu input pos tokens =
     (if isAtEnd input (skipWhitespace input pos) then
        Inr (tokens @ [endToken fpu (skipWhitespace input pos)])
      else if isdigit (currentChar input (skipWhitespace input pos))
              \<or> (currentChar input (skipWhitespace input pos) = CHR ''.''
                  \<and> isdigit (peekChar input (skipWhitespace input pos) 1)) then
        (case lexNumber fpu input (skipWhitespace input pos) of
           Inl err \<Rightarrow> Inl err
         | Inr (tok, pos2) \<Rightarrow> tokenizeLoop fpu input pos2 (tokens @ [tok]))
      else if isIdentifierStart (currentChar input (skipWhitespace input pos)) then
        (case lexIdentifier fpu input (skipWhitespace input pos) of
           (tok, pos2) \<Rightarrow> tokenizeLoop fpu input pos2 (tokens @ [tok]))
      else if currentChar input (skipWhitespace input pos) = CHR ''$'' then
        (case lexHistoryRef fpu input (skipWhitespace input pos) of
           Inl err \<Rightarrow> Inl err
         | Inr (tok, pos2) \<Rightarrow> tokenizeLoop fpu input pos2 (tokens @ [tok]))
      else
        (case operatorType (currentChar input (skipWhitespace input pos)) of
           None \<Rightarrow>
             Inl (ParseError (''Unexpected token '' @ [CHR 0x27]
                    @ [currentChar input (skipWhitespace input pos)] @ [CHR 0x27]
                    @ '' at position '' @ show_nat (skipWhitespace input pos)))
         | Some ty \<Rightarrow>
             tokenizeLoop fpu input (Suc (skipWhitespace input pos))
               (tokens @ [\<lparr>type = ty, lexeme = [currentChar input (skipWhitespace input pos)],
                           position = skipWhitespace input pos,
                           number_value = fp_of_rat fpu 0, history_index = 0\<rparr>])))"
  by (subst tokenizeLoop.simps) (simp add: Let_def advance_def)

lemma show_nat_digit: "n < 10 \<Longrightarrow> show_nat n = [digit_char n]"
  by (subst show_nat.simps) simp

lemma show_nat_more:
  "\<not> n < 10 \<Longrightarrow> show_nat n = show_nat (n div 10) @ [digit_char (n mod 10)]"
  by (subst show_nat.simps) simp

lemmas lexer_eval =
  tokenize_def tokenizeLoop_end tokenizeLoop_step skipWhitespace_step skipWhitespace_stop
  digitLoop_step digitLoop_stop identifierLoop_step identifierLoop_stop
  lexNumber_def lexIdentifier_def lexHistoryRef_def operatorType_def endToken_def
  isAtEnd_def currentChar_def peekChar_def advance_def
  isdigit_def isalpha_def isalnum_def isspace_def isIdentifierStart_def isIdentifierPart_def
  substr_def stod_def stoi_def decimal_value_def exponent_value_def scale10_def
  digits_value_def digit_value_def show_nat_digit show_nat_more digit_char_def Let_def

lemma then_parse_simps:
  "then_parse None k = None"
  "then_parse (Some (Inl err)) k = Some (Inl err)"
  "then_parse (Some (Inr x)) k = k x"
  by (simp_all add: then_parse_def)

lemma then_parse_weak_cong: "r = r' \<Longrightarrow> then_parse r k = then_parse r' k"
  by simp

lemmas parser_numeral =
  parseExpression.simps(2) [of "pred_numeral k", folded numeral_eq_Suc]
  parseAdditive.simps(2) [of "pred_numeral k", folded numeral_eq_Suc]
  additiveLoop.simps(2) [of "pred_numeral k", folded numeral_eq_Suc]
  parseMultiplicative.simps(2) [of "pred_numeral k", folded numeral_eq_Suc]
  multiplicativeLoop.simps(2) [of "pred_numeral k", folded numeral_eq_Suc]
  parseUnary.simps(2) [of "pred_numeral k", folded numeral_eq_Suc]
  parsePower.simps(2) [of "pred_numeral k", folded numeral_eq_Suc]
  parsePrimary.simps(2) [of "pred_numeral k", folded numeral_eq_Suc]
  argumentLoop.simps(2) [of "pred_numeral k", folded numeral_eq_Suc]
  for k

lemmas parser_eval =
  parseStatement_def parser_numeral then_parse_simps match_def check_def current_def peek_def
  Parser_advance_def expect_def throwUnexpected_def parseDepth_def

lemmas context_eval =
  newContext_def getVariable_def setVariable_def pushHistory_def getHistoryValue_def
  applyBinary_def callBuiltin_def unaryBuiltin_def requireArgCount_def requireAtLeastArgs_def
  min_element_def max_element_def kZeroEpsilon_def plural_def show_int_def
  Evaluator_evaluate_def

lemmas run = evaluate_def lexer_eval parser_eval context_eval


section \<open>The evaluator\<close>

text \<open>
  Evaluating a tree without assignment leaves the context as it is; no evaluation changes
  the history or the bindings of \<open>pi\<close> and \<open>e\<close>; every failure is an \<open>EvalError\<close>.
\<close>

lemmas evaluator_induct = evalNode_evalUnary_evalBinary_evalCall_evalArguments.induct

lemma evalNode_assignmentFree_context:
  "assignmentFree node \<Longrightarrow> snd (evalNode fpu node c) = c"
  "assignmentFree operand \<Longrightarrow> snd (evalUnary fpu uop operand c) = c"
  "assignmentFree left \<Longrightarrow> assignmentFree right \<Longrightarrow> snd (evalBinary fpu bop left right c) = c"
  "list_all assignmentFree args \<Longrightarrow> snd (evalCall fpu name args c) = c"
  "list_all assignmentFree args \<Longrightarrow> snd (evalArguments fpu args vs c) = c"
proof (induction fpu node c and fpu uop operand c and fpu bop left right c and fpu name args c
    and fpu args vs c rule: evaluator_induct)
  case (9 fpu op left right c)
  then show ?case
    by (cases "evalNode fpu left c"; cases "evalNode fpu right c")
       (auto split: sum.splits prod.splits)
qed (auto split: sum.splits prod.splits UnaryOp.splits)

lemma evalNode_history:
  "history (snd (evalNode fpu node c)) = history c"
  "history (snd (evalUnary fpu uop operand c)) = history c"
  "history (snd (evalBinary fpu bop left right c)) = history c"
  "history (snd (evalCall fpu name args c)) = history c"
  "history (snd (evalArguments fpu args vs c)) = history c"
proof (induction fpu node c and fpu uop operand c and fpu bop left right c and fpu name args c
    and fpu args vs c rule: evaluator_induct)
qed (auto split: sum.splits prod.splits UnaryOp.splits simp: setVariable_def)

lemma evalNode_constants:
  "k = ''pi'' \<or> k = ''e'' \<Longrightarrow> variables (snd (evalNode fpu node c)) k = variables c k"
  "k = ''pi'' \<or> k = ''e'' \<Longrightarrow> variables (snd (evalUnary fpu uop operand c)) k = variables c k"
  "k = ''pi'' \<or> k = ''e'' \<Longrightarrow> variables (snd (evalBinary fpu bop left right c)) k = variables c k"
  "k = ''pi'' \<or> k = ''e'' \<Longrightarrow> variables (snd (evalCall fpu name args c)) k = variables c k"
  "k = ''pi'' \<or> k = ''e'' \<Longrightarrow> variables (snd (evalArguments fpu args vs c)) k = variables c k"
proof (induction fpu node c and fpu uop operand c and fpu bop left right c and fpu name args c
    and fpu args vs c rule: evaluator_induct)
qed (auto split: sum.splits prod.splits UnaryOp.splits simp: setVariable_def)

lemma callBuiltin_error: "callBuiltin fpu fn args = Inl err \<Longrightarrow> isEvalError err"
  by (auto simp: callBuiltin_def unaryBuiltin_def requireArgCount_def requireAtLeastArgs_def
      split: if_splits sum.splits)

lemma applyBinary_error: "applyBinary fpu op lhs rhs = Inl err \<Longrightarrow> isEvalError err"
  by (auto simp: applyBinary_def split: BinaryOp.splits if_splits)

lemma evalNode_error:
  "fst (evalNode fpu node c) = Inl err \<Longrightarrow> isEvalError err"
  "fst (evalUnary fpu uop operand c) = Inl err \<Longrightarrow> isEvalError err"
  "fst (evalBinary fpu bop left right c) = Inl err \<Longrightarrow> isEvalError err"
  "fst (evalCall fpu name args c) = Inl err \<Longrightarrow> isEvalError err"
  "fst (evalArguments fpu args vs c) = Inl err \<Longrightarrow> isEvalError err"
proof (induction fpu node c and fpu uop operand c and fpu bop left right c and fpu name args c
    and fpu args vs c rule: evaluator_induct)
qed (auto split: sum.splits prod.splits UnaryOp.splits if_splits option.splits
      simp: setVariable_def getVariable_def getHistoryValue_def
      dest: callBuiltin_error applyBinary_error)

section \<open>The parser\<close>

text \<open>
  The expression parser builds no \<open>AssignmentNode\<close>, and all its failures are
  \<open>ParseError\<close>s.
\<close>

lemmas parser_induct =
  parseExpression_parseAdditive_additiveLoop_parseMultiplicative_multiplicativeLoop_parseUnary_parsePower_parsePrimary_argumentLoop.induct

lemma parser_assignmentFree:
  "parseExpression n tokens pos = Some (Inr (node, pos')) \<Longrightarrow> assignmentFree node"
  "parseAdditive n tokens pos = Some (Inr (node, pos')) \<Longrightarrow> assignmentFree node"
  "additiveLoop n tokens lhs pos = Some (Inr (node, pos')) \<Longrightarrow> assignmentFree lhs \<Longrightarrow> assignmentFree node"
  "parseMultiplicative n tokens pos = Some (Inr (node, pos')) \<Longrightarrow> assignmentFree node"
  "multiplicativeLoop n tokens lhs pos = Some (Inr (node, pos')) \<Longrightarrow> assignmentFree lhs \<Longrightarrow> assignmentFree node"
  "parseUnary n tokens pos = Some (Inr (node, pos')) \<Longrightarrow> assignmentFree node"
  "parsePower n tokens pos = Some (Inr (node, pos')) \<Longrightarrow> assignmentFree node"
  "parsePrimary n tokens pos = Some (Inr (node, pos')) \<Longrightarrow> assignmentFree node"
  "argumentLoop n tokens args pos = Some (Inr (args', pos')) \<Longrightarrow> list_all assignmentFree args
     \<Longrightarrow> list_all assignmentFree args'"
proof (induction n tokens pos and n tokens pos and n tokens lhs pos and n tokens pos
    and n tokens lhs pos and n tokens pos and n tokens pos and n tokens pos and n tokens args pos
    arbitrary: node pos' and node pos' and node pos' and node pos' and node pos' and node pos'
      and node pos' and node pos' and args' pos'
    rule: parser_induct)
qed (auto simp: then_parse_def Let_def split: option.splits sum.splits if_splits)

lemma parser_error:
  "parseExpression n tokens pos = Some (Inl err) \<Longrightarrow> isParseError err"
  "parseAdditive n tokens pos = Some (Inl err) \<Longrightarrow> isParseError err"
  "additiveLoop n tokens lhs pos = Some (Inl err) \<Longrightarrow> isParseError err"
  "parseMultiplicative n tokens pos = Some (Inl err) \<Longrightarrow> isParseError err"
  "multiplicativeLoop n tokens lhs pos = Some (Inl err) \<Longrightarrow> isParseError err"
  "parseUnary n tokens pos = Some (Inl err) \<Longrightarrow> isParseError err"
  "parsePower n tokens pos = Some (Inl err) \<Longrightarrow> isParseError err"
  "parsePrimary n tokens pos = Some (Inl err) \<Longrightarrow> isParseError err"
  "argumentLoop n tokens args pos = Some (Inl err) \<Longrightarrow> isParseError err"
proof (induction n tokens pos and n tokens pos and n tokens lhs pos and n tokens pos
    and n tokens lhs pos and n tokens pos and n tokens pos and n tokens pos and n tokens args pos
    rule: parser_induct)
qed (auto simp: then_parse_def Let_def expect_def throwUnexpected_def
      split: option.splits sum.splits if_splits)

subsection \<open>Positions\<close>

text \<open>
  On a well-formed token sequence a successful \<open>match\<close> or \<open>expect\<close> of a token other than
  \<open>End\<close> moves to the next position, which is inside the sequence; so every parsing
  function that succeeds has consumed at least one token and stops inside the sequence.
\<close>

lemma match_advance:
  "wellFormed tokens \<Longrightarrow> pos < length tokens \<Longrightarrow> ty \<noteq> End \<Longrightarrow> fst (match tokens pos ty)
     \<Longrightarrow> snd (match tokens pos ty) = Suc pos \<and> Suc pos < length tokens"
  by (cases "pos = length tokens - 1")
     (auto simp: wellFormed_def match_def check_def current_def Parser_advance_def last_conv_nth
       split: if_splits)

lemma expect_advance:
  "wellFormed tokens \<Longrightarrow> pos < length tokens \<Longrightarrow> ty \<noteq> End \<Longrightarrow> expect tokens pos ty = Inr pos'
     \<Longrightarrow> pos' = Suc pos \<and> Suc pos < length tokens"
  by (cases "pos = length tokens - 1")
     (auto simp: wellFormed_def expect_def check_def current_def Parser_advance_def last_conv_nth
       split: if_splits)

lemma then_parse_Inr_iff:
  "then_parse r k = Some (Inr y) \<longleftrightarrow> (\<exists>x. r = Some (Inr x) \<and> k x = Some (Inr y))"
  by (auto simp: then_parse_def split: option.splits sum.splits)

lemma fst_match: "fst (match tokens pos ty) = check tokens pos ty"
  by (simp add: match_def)

lemma snd_match_wf:
  "wellFormed tokens \<Longrightarrow> pos < length tokens \<Longrightarrow> ty \<noteq> End \<Longrightarrow> check tokens pos ty
     \<Longrightarrow> snd (match tokens pos ty) = Suc pos"
  using match_advance [of tokens pos ty] by (simp add: fst_match)

lemma check_wf:
  "wellFormed tokens \<Longrightarrow> pos < length tokens \<Longrightarrow> ty \<noteq> End \<Longrightarrow> check tokens pos ty
     \<Longrightarrow> Suc pos < length tokens"
  using match_advance [of tokens pos ty] by (simp add: fst_match)

lemmas check_wf_simps =
  check_wf [of _ _ PlusTok, simplified] check_wf [of _ _ Minus, simplified]
  check_wf [of _ _ Star, simplified] check_wf [of _ _ Slash, simplified]
  check_wf [of _ _ Percent, simplified] check_wf [of _ _ Caret, simplified]
  check_wf [of _ _ Number, simplified] check_wf [of _ _ HistoryRef, simplified]
  check_wf [of _ _ Identifier, simplified] check_wf [of _ _ LParen, simplified]
  check_wf [of _ _ RParen, simplified] check_wf [of _ _ Comma, simplified]

lemma advances_then_parse:
  "advances len q r \<Longrightarrow> pos \<le> q \<Longrightarrow> (\<And>x p. q < p \<Longrightarrow> p < len \<Longrightarrow> keeps len p (k (x, p)))
     \<Longrightarrow> advances len pos (then_parse r k)"
  by (fastforce simp: advances_def keeps_def then_parse_Inr_iff)

lemma keeps_then_parse:
  "advances len q r \<Longrightarrow> pos \<le> q \<Longrightarrow> (\<And>x p. q < p \<Longrightarrow> p < len \<Longrightarrow> keeps len p (k (x, p)))
     \<Longrightarrow> keeps len pos (then_parse r k)"
  by (fastforce simp: advances_def keeps_def then_parse_Inr_iff)

lemma keeps_then_parse_Suc:
  "advances len (Suc pos) r \<Longrightarrow> (\<And>x p. Suc pos < p \<Longrightarrow> p < len \<Longrightarrow> keeps len p (k (x, p)))
     \<Longrightarrow> keeps len pos (then_parse r k)"
  by (rule keeps_then_parse [where q = "Suc pos"]) simp_all

lemma keeps_return: "pos \<le> p \<Longrightarrow> p < len \<Longrightarrow> keeps len pos (Some (Inr (x, p)))"
  by (simp add: keeps_def)

lemma expect_wf:
  "wellFormed tokens \<Longrightarrow> pos < length tokens \<Longrightarrow> check tokens pos RParen
     \<Longrightarrow> expect tokens pos RParen = Inr (Suc pos)"
  using snd_match_wf [of tokens pos RParen] by (simp add: expect_def match_def)

lemma expect_case_Inr_iff:
  "(case e of Inl err \<Rightarrow> Some (Inl err) | Inr p4 \<Rightarrow> Some (Inr (g p4))) = Some (Inr y)
     \<longleftrightarrow> (\<exists>p4. e = Inr p4 \<and> g p4 = y)"
  by (cases e) auto

lemma advances_Suc_keeps: "advances len (Suc pos) r \<Longrightarrow> keeps len pos r"
  by (auto simp: advances_def keeps_def)

lemma parser_progress:
  "wellFormed tokens \<Longrightarrow> pos < length tokens \<Longrightarrow>
     advances (length tokens) pos (parseExpression n tokens pos)"
  "wellFormed tokens \<Longrightarrow> pos < length tokens \<Longrightarrow>
     advances (length tokens) pos (parseAdditive n tokens pos)"
  "wellFormed tokens \<Longrightarrow> pos < length tokens \<Longrightarrow>
     keeps (length tokens) pos (additiveLoop n tokens lhs pos)"
  "wellFormed tokens \<Longrightarrow> pos < length tokens \<Longrightarrow>
     advances (length tokens) pos (parseMultiplicative n tokens pos)"
  "wellFormed tokens \<Longrightarrow> pos < length tokens \<Longrightarrow>
     keeps (length tokens) pos (multiplicativeLoop n tokens lhs pos)"
  "wellFormed tokens \<Longrightarrow> pos < length tokens \<Longrightarrow>
     advances (length tokens) pos (parseUnary n tokens pos)"
  "wellFormed tokens \<Longrightarrow> pos < length tokens \<Longrightarrow>
     advances (length tokens) pos (parsePower n tokens pos)"
  "wellFormed tokens \<Longrightarrow> pos < length tokens \<Longrightarrow>
     advances (length tokens) pos (parsePrimary n tokens pos)"
  "wellFormed tokens \<Longrightarrow> pos < length tokens \<Longrightarrow>
     advances (length tokens) pos (argumentLoop n tokens args pos)"
proof (induction n tokens pos and n tokens pos and n tokens lhs pos and n tokens pos
    and n tokens lhs pos and n tokens pos and n tokens pos and n tokens pos and n tokens args pos
    rule: parser_induct)
  case (4 n tokens pos)
  then show ?case
    by (auto intro!: advances_then_parse)
next
  case (6 n tokens lhs pos)
  then show ?case
    by (auto simp: fst_match snd_match_wf check_wf_simps
        intro!: advances_then_parse keeps_then_parse keeps_return)
next
  case (8 n tokens pos)
  then show ?case
    by (auto intro!: advances_then_parse)
next
  case (10 n tokens lhs pos)
  then show ?case
    by (auto simp: fst_match snd_match_wf check_wf_simps
        intro!: advances_then_parse keeps_then_parse keeps_return)
next
  case (12 n tokens pos)
  then show ?case
    by (auto simp: fst_match snd_match_wf check_wf_simps
        intro!: advances_then_parse keeps_then_parse keeps_return)
next
  case (14 n tokens pos)
  have ih: "advances (length tokens) (Suc p) (parseUnary n tokens (Suc p))"
    if "p < length tokens" "check tokens p Caret" for p
    using "14.IH"(2) [of p] "14.prems" that
    by (simp add: fst_match snd_match_wf check_wf_simps)
  from "14.IH"(1) "14.prems" ih show ?case
    by (auto simp: fst_match snd_match_wf check_wf_simps
        intro!: advances_then_parse [where q = pos] keeps_then_parse_Suc keeps_return
        split: if_splits)
next
  case (16 n tokens pos)
  have ih1: "advances (length tokens) (Suc (Suc pos)) (argumentLoop n tokens [] (Suc (Suc pos)))"
    if "\<not> check tokens pos Number" "\<not> check tokens pos HistoryRef" "check tokens pos Identifier"
      "check tokens (Suc pos) LParen" "\<not> check tokens (Suc (Suc pos)) RParen"
    using "16.IH"(1) [OF _ _ _ refl refl _ refl] "16.prems" that
    by (simp add: fst_match snd_match_wf check_wf_simps)
  have ih2: "advances (length tokens) (Suc pos) (parseExpression n tokens (Suc pos))"
    if "\<not> check tokens pos Number" "\<not> check tokens pos HistoryRef" "\<not> check tokens pos Identifier"
      "check tokens pos LParen"
    using "16.IH"(2) "16.prems" that
    by (simp add: fst_match snd_match_wf check_wf_simps)
  have ex: "p' = Suc p \<and> Suc p < length tokens"
    if "expect tokens p RParen = Inr p'" "p < length tokens" for p p'
    using expect_advance [of tokens p RParen p'] "16.prems" that by simp
  show ?case
    unfolding advances_def
  proof (intro allI impI)
    fix x pos'
    assume eq: "parsePrimary (Suc n) tokens pos = Some (Inr (x, pos'))"
    show "pos < pos' \<and> pos' < length tokens"
    proof (cases "check tokens pos Number \<or> check tokens pos HistoryRef")
      case True
      with eq "16.prems" show ?thesis
        by (auto simp: fst_match snd_match_wf check_wf_simps Let_def split: if_splits)
    next
      case False
      note nf = this
      show ?thesis
      proof (cases "check tokens pos Identifier")
        case True
        then have s: "Suc pos < length tokens"
          using "16.prems" by (simp add: check_wf_simps)
        show ?thesis
        proof (cases "check tokens (Suc pos) LParen")
          case False
          with eq "16.prems" nf True s show ?thesis
            by (auto simp: fst_match snd_match_wf Let_def)
        next
          case lp: True
          then have s2: "Suc (Suc pos) < length tokens"
            using "16.prems" s by (simp add: check_wf_simps)
          show ?thesis
          proof (cases "check tokens (Suc (Suc pos)) RParen")
            case True
            with eq "16.prems" nf \<open>check tokens pos Identifier\<close> s lp s2 show ?thesis
              by (auto simp: fst_match snd_match_wf Let_def then_parse_simps expect_wf check_wf_simps)
          next
            case False
            with eq "16.prems" nf \<open>check tokens pos Identifier\<close> s lp s2
            obtain args p3 p4 where
              a: "argumentLoop n tokens [] (Suc (Suc pos)) = Some (Inr (args, p3))"
              and b: "expect tokens p3 RParen = Inr p4" and c: "pos' = p4"
              by (auto simp: fst_match snd_match_wf Let_def then_parse_Inr_iff expect_case_Inr_iff)
            from ih1 nf \<open>check tokens pos Identifier\<close> lp False a
            have "Suc (Suc pos) < p3 \<and> p3 < length tokens"
              by (simp add: advances_def)
            with ex [OF b] c show ?thesis by simp
          qed
        qed
      next
        case ni: False
        show ?thesis
        proof (cases "check tokens pos LParen")
          case True
          then have s: "Suc pos < length tokens"
            using "16.prems" by (simp add: check_wf_simps)
          from eq "16.prems" nf ni True s
          obtain p2 p3 where
            a: "parseExpression n tokens (Suc pos) = Some (Inr (x, p2))"
            and b: "expect tokens p2 RParen = Inr p3" and c: "pos' = p3"
            by (auto simp: fst_match snd_match_wf Let_def then_parse_Inr_iff expect_case_Inr_iff)
          from ih2 nf ni True a have "Suc pos < p2 \<and> p2 < length tokens"
            by (simp add: advances_def)
          with ex [OF b] c show ?thesis by simp
        next
          case False
          with eq nf ni show ?thesis
            by (simp add: fst_match)
        qed
      qed
    qed
  qed
next
  case (18 n tokens args pos)
  have ih: "keeps (length tokens) p (argumentLoop n tokens (args @ [x]) (Suc p))"
    if "p < length tokens" "check tokens p Comma" for p x
    using "18.IH"(2) [of p x] "18.prems" that
    by (simp add: fst_match snd_match_wf check_wf_simps advances_Suc_keeps)
  from "18.IH"(1) "18.prems" ih show ?case
    by (auto simp: fst_match snd_match_wf check_wf_simps
        intro!: advances_then_parse [where q = pos] keeps_return split: if_splits)
qed (simp_all add: advances_def keeps_def)

subsection \<open>The depth bound\<close>

text \<open>
  The recursion of the parser is bounded by the number of tokens left: with a bound of nine
  calls for each token the parsing functions return, and a larger bound does not change
  what they return.
\<close>

lemma then_parse_total:
  "returns r \<Longrightarrow> advances len q r \<Longrightarrow> (\<And>x p. q < p \<Longrightarrow> p < len \<Longrightarrow> returns (k (x, p)))
     \<Longrightarrow> returns (then_parse r k)"
  by (cases r) (auto simp: returns_def then_parse_def advances_def split: sum.splits)

lemma expect_case_total:
  "returns (case e of Inl err \<Rightarrow> Some (Inl err) | Inr p4 \<Rightarrow> Some (Inr (g p4)))"
  by (cases e) (auto simp: returns_def)

lemma returns_Some: "returns (Some x)"
  by (simp add: returns_def)

lemma then_parse_total0:
  "returns r \<Longrightarrow> (\<And>x. returns (k x)) \<Longrightarrow> returns (then_parse r k)"
  by (cases r) (auto simp: returns_def then_parse_def split: sum.splits)

lemma parser_total:
  "wellFormed tokens \<Longrightarrow> pos < length tokens \<Longrightarrow> 9 * (length tokens - pos) + 5 \<le> n \<Longrightarrow>
     returns (parseExpression n tokens pos)"
  "wellFormed tokens \<Longrightarrow> pos < length tokens \<Longrightarrow> 9 * (length tokens - pos) + 4 \<le> n \<Longrightarrow>
     returns (parseAdditive n tokens pos)"
  "wellFormed tokens \<Longrightarrow> pos < length tokens \<Longrightarrow> 9 * (length tokens - pos) \<le> n \<Longrightarrow>
     returns (additiveLoop n tokens lhs pos)"
  "wellFormed tokens \<Longrightarrow> pos < length tokens \<Longrightarrow> 9 * (length tokens - pos) + 3 \<le> n \<Longrightarrow>
     returns (parseMultiplicative n tokens pos)"
  "wellFormed tokens \<Longrightarrow> pos < length tokens \<Longrightarrow> 9 * (length tokens - pos) \<le> n \<Longrightarrow>
     returns (multiplicativeLoop n tokens lhs pos)"
  "wellFormed tokens \<Longrightarrow> pos < length tokens \<Longrightarrow> 9 * (length tokens - pos) + 2 \<le> n \<Longrightarrow>
     returns (parseUnary n tokens pos)"
  "wellFormed tokens \<Longrightarrow> pos < length tokens \<Longrightarrow> 9 * (length tokens - pos) + 1 \<le> n \<Longrightarrow>
     returns (parsePower n tokens pos)"
  "wellFormed tokens \<Longrightarrow> pos < length tokens \<Longrightarrow> 9 * (length tokens - pos) \<le> n \<Longrightarrow>
     returns (parsePrimary n tokens pos)"
  "wellFormed tokens \<Longrightarrow> pos < length tokens \<Longrightarrow> 9 * (length tokens - pos) + 6 \<le> n \<Longrightarrow>
     returns (argumentLoop n tokens args pos)"
proof (induction n tokens pos and n tokens pos and n tokens lhs pos and n tokens pos
    and n tokens lhs pos and n tokens pos and n tokens pos and n tokens pos and n tokens args pos
    rule: parser_induct)
  case (4 n tokens pos)
  then show ?case
    by (auto simp: parser_progress returns_Some intro!: then_parse_total [where q = pos and len = "length tokens"])
next
  case (6 n tokens lhs pos)
  then show ?case
    by (auto simp: parser_progress returns_Some fst_match snd_match_wf check_wf_simps
        intro!: then_parse_total [where q = "Suc pos" and len = "length tokens"])
next
  case (8 n tokens pos)
  then show ?case
    by (auto simp: parser_progress returns_Some intro!: then_parse_total [where q = pos and len = "length tokens"])
next
  case (10 n tokens lhs pos)
  then show ?case
    by (auto simp: parser_progress returns_Some fst_match snd_match_wf check_wf_simps
        intro!: then_parse_total [where q = "Suc pos" and len = "length tokens"])
next
  case (12 n tokens pos)
  then show ?case
    by (auto simp: parser_progress returns_Some fst_match snd_match_wf check_wf_simps then_parse_Inr_iff
        intro!: then_parse_total [where q = "Suc pos" and len = "length tokens"])
next
  case (14 n tokens pos)
  have ih: "returns (parseUnary n tokens (Suc p))"
    if "pos < p" "p < length tokens" "check tokens p Caret" for p
    using "14.IH"(2) [of p] "14.prems" that
    by (simp add: fst_match snd_match_wf check_wf_simps)
  have k: "returns (then_parse (parseUnary n tokens (Suc p)) (\<lambda>(rhs, pos3). Some (Inr (f rhs, pos3))))"
    if "pos < p" "p < length tokens" "check tokens p Caret" for p and f :: "'a Node \<Rightarrow> 'a Node"
    using ih [OF that] by (auto simp: returns_def then_parse_def split: option.splits sum.splits)
  from "14.IH"(1) "14.prems" k show ?case
    by (auto simp: parser_progress returns_Some fst_match snd_match_wf check_wf_simps
        intro!: then_parse_total [where q = pos and len = "length tokens"])
next
  case (16 n tokens pos)
  have ih1: "returns (argumentLoop n tokens [] (Suc (Suc pos)))"
    if "\<not> check tokens pos Number" "\<not> check tokens pos HistoryRef" "check tokens pos Identifier"
      "check tokens (Suc pos) LParen" "\<not> check tokens (Suc (Suc pos)) RParen"
  proof -
    from that "16.prems" have "Suc pos < length tokens" "Suc (Suc pos) < length tokens"
      by (simp_all add: check_wf_simps)
    with "16.IH"(1) [OF _ _ _ refl refl _ refl] "16.prems" that show ?thesis
      by (simp add: fst_match snd_match_wf)
  qed
  have ih2: "returns (parseExpression n tokens (Suc pos))"
    if "\<not> check tokens pos Number" "\<not> check tokens pos HistoryRef" "\<not> check tokens pos Identifier"
      "check tokens pos LParen"
  proof -
    from that "16.prems" have "Suc pos < length tokens"
      by (simp_all add: check_wf_simps)
    with "16.IH"(2) "16.prems" that show ?thesis
      by (simp add: fst_match snd_match_wf)
  qed
  from "16.prems" ih1 ih2 show ?case
    by (auto simp: fst_match snd_match_wf check_wf_simps Let_def returns_Some expect_case_total
        intro!: then_parse_total0 split: prod.splits)
next
  case (18 n tokens args pos)
  have ih: "returns (argumentLoop n tokens (args @ [x]) (Suc p))"
    if "pos < p" "p < length tokens" "check tokens p Comma" for p x
    using "18.IH"(2) [of p x] "18.prems" that
    by (simp add: fst_match snd_match_wf check_wf_simps)
  from "18.IH"(1) "18.prems" ih show ?case
    by (auto simp: parser_progress returns_Some fst_match snd_match_wf check_wf_simps
        intro!: then_parse_total [where q = pos and len = "length tokens"])
qed (simp_all add: returns_def)

lemma extends_refl: "extends r r"
  by (simp add: extends_def)

lemma extends_None: "extends None r"
  by (simp add: extends_def)

lemma extends_then_parse:
  "extends r r' \<Longrightarrow> (\<And>x. extends (k x) (k' x)) \<Longrightarrow> extends (then_parse r k) (then_parse r' k')"
  by (cases r) (auto simp: extends_def then_parse_def split: sum.splits)

lemmas parser_Suc =
  parseExpression.simps(2) parseAdditive.simps(2) additiveLoop.simps(2)
  parseMultiplicative.simps(2) multiplicativeLoop.simps(2) parseUnary.simps(2)
  parsePower.simps(2) parsePrimary.simps(2) argumentLoop.simps(2)

lemma parser_mono:
  "extends (parseExpression n tokens pos) (parseExpression (Suc n) tokens pos)"
  "extends (parseAdditive n tokens pos) (parseAdditive (Suc n) tokens pos)"
  "extends (additiveLoop n tokens lhs pos) (additiveLoop (Suc n) tokens lhs pos)"
  "extends (parseMultiplicative n tokens pos) (parseMultiplicative (Suc n) tokens pos)"
  "extends (multiplicativeLoop n tokens lhs pos) (multiplicativeLoop (Suc n) tokens lhs pos)"
  "extends (parseUnary n tokens pos) (parseUnary (Suc n) tokens pos)"
  "extends (parsePower n tokens pos) (parsePower (Suc n) tokens pos)"
  "extends (parsePrimary n tokens pos) (parsePrimary (Suc n) tokens pos)"
  "extends (argumentLoop n tokens args pos) (argumentLoop (Suc n) tokens args pos)"
proof (induction n tokens pos and n tokens pos and n tokens lhs pos and n tokens pos
    and n tokens lhs pos and n tokens pos and n tokens pos and n tokens pos and n tokens args pos
    rule: parser_induct)
  case (2 n tokens pos)
  then show ?case
    by (subst (2) parseExpression.simps, subst parseExpression.simps)
       (simp del: parser_Suc)
next
  case (4 n tokens pos)
  then show ?case
    by (subst (2) parseAdditive.simps, subst parseAdditive.simps)
       (auto simp del: parser_Suc intro!: extends_then_parse)
next
  case (6 n tokens node pos)
  then show ?case
    by (subst (2) additiveLoop.simps, subst additiveLoop.simps)
       (auto simp del: parser_Suc intro!: extends_then_parse extends_refl)
next
  case (8 n tokens pos)
  then show ?case
    by (subst (2) parseMultiplicative.simps, subst parseMultiplicative.simps)
       (auto simp del: parser_Suc intro!: extends_then_parse)
next
  case (10 n tokens node pos)
  then show ?case
    by (subst (2) multiplicativeLoop.simps, subst multiplicativeLoop.simps)
       (auto simp del: parser_Suc intro!: extends_then_parse extends_refl)
next
  case (12 n tokens pos)
  then show ?case
    by (subst (2) parseUnary.simps, subst parseUnary.simps)
       (auto simp del: parser_Suc intro!: extends_then_parse extends_refl)
next
  case (14 n tokens pos)
  then show ?case
    by (subst (2) parsePower.simps, subst parsePower.simps)
       (auto simp del: parser_Suc intro!: extends_then_parse extends_refl)
next
  case (16 n tokens pos)
  then show ?case
    by (subst (2) parsePrimary.simps, subst parsePrimary.simps)
       (auto simp: Let_def simp del: parser_Suc intro!: extends_then_parse extends_refl)
next
  case (18 n tokens args pos)
  then show ?case
    by (subst (2) argumentLoop.simps, subst argumentLoop.simps)
       (auto simp del: parser_Suc intro!: extends_then_parse extends_refl)
qed (simp_all add: extends_None)

lemma extends_trans: "extends a b \<Longrightarrow> extends b c \<Longrightarrow> extends a c"
  by (simp add: extends_def)



section \<open>The lexer\<close>

text \<open>
  A property holds of the result of \<open>tokenize\<close> when it holds of a token sequence that ends
  with the \<open>End\<close> token, of the error for an unexpected character, and of the errors of
  \<open>lexNumber\<close> and \<open>lexHistoryRef\<close>.
\<close>

lemma tokenizeLoop_cases:
  assumes fin: "\<And>p acc. Q (Inr (acc @ [endToken fpu p]))"
    and bad: "\<And>c p. operatorType c = None \<Longrightarrow>
      Q (Inl (ParseError (''Unexpected token '' @ [CHR 0x27] @ [c] @ [CHR 0x27]
                 @ '' at position '' @ show_nat p)))"
    and num: "\<And>p err. lexNumber fpu input p = Inl err \<Longrightarrow> Q (Inl err)"
    and hist: "\<And>p err. lexHistoryRef fpu input p = Inl err \<Longrightarrow> Q (Inl err)"
  shows "Q (tokenizeLoop fpu input pos acc)"
proof (induction "length input - pos" arbitrary: pos acc rule: less_induct)
  case less
  show ?case
  proof (cases "isAtEnd input pos")
    case True
    then show ?thesis by (simp add: tokenizeLoop_end fin)
  next
    case False
    define p where "p = skipWhitespace input pos"
    have ge: "pos \<le> p" unfolding p_def by (rule skipWhitespace_ge)
    have ih: "Q (tokenizeLoop fpu input p2 acc')" if "p < p2" for p2 acc'
      using less [of p2 acc'] that ge False by (simp add: isAtEnd_def)
    show ?thesis
    proof (cases "isAtEnd input p")
      case True
      with False show ?thesis by (simp add: tokenizeLoop_step fin p_def)
    next
      case notend: False
      consider (number) "isdigit (currentChar input p)
            \<or> (currentChar input p = CHR ''.'' \<and> isdigit (peekChar input p 1))"
        | (ident) "\<not> (isdigit (currentChar input p)
            \<or> (currentChar input p = CHR ''.'' \<and> isdigit (peekChar input p 1)))"
            "isIdentifierStart (currentChar input p)"
        | (hist) "\<not> (isdigit (currentChar input p)
            \<or> (currentChar input p = CHR ''.'' \<and> isdigit (peekChar input p 1)))"
            "\<not> isIdentifierStart (currentChar input p)" "currentChar input p = CHR ''$''"
        | (op) "\<not> (isdigit (currentChar input p)
            \<or> (currentChar input p = CHR ''.'' \<and> isdigit (peekChar input p 1)))"
            "\<not> isIdentifierStart (currentChar input p)" "currentChar input p \<noteq> CHR ''$''"
        by blast
      then show ?thesis
      proof cases
        case number
        show ?thesis
        proof (cases "lexNumber fpu input p")
          case (Inl err)
          with False notend number num [of p err] show ?thesis
            by (auto simp: tokenizeLoop_step p_def [symmetric])
        next
          case (Inr r)
          obtain tok p2 where r: "r = (tok, p2)" by (cases r)
          with Inr have "p < p2" by (auto dest: lexNumber_progress)
          with False notend number Inr r ih [of p2] show ?thesis
            by (auto simp: tokenizeLoop_step p_def [symmetric])
        qed
      next
        case ident
        obtain tok p2 where r: "lexIdentifier fpu input p = (tok, p2)"
          by (cases "lexIdentifier fpu input p")
        with ident have "p < p2" by (auto dest: lexIdentifier_progress)
        with False notend ident r ih [of p2] show ?thesis
          by (auto simp: tokenizeLoop_step p_def [symmetric])
      next
        case hist
        show ?thesis
        proof (cases "lexHistoryRef fpu input p")
          case (Inl err)
          with False notend hist assms(4) [of p err] show ?thesis
            by (auto simp: tokenizeLoop_step p_def [symmetric])
        next
          case (Inr r)
          obtain tok p2 where r: "r = (tok, p2)" by (cases r)
          with Inr notend have "p < p2" by (auto dest: lexHistoryRef_progress)
          with False notend hist Inr r ih [of p2] show ?thesis
            by (auto simp: tokenizeLoop_step p_def [symmetric])
        qed
      next
        case op
        show ?thesis
        proof (cases "operatorType (currentChar input p)")
          case None
          with False notend op bad [of "currentChar input p" p] show ?thesis
            by (auto simp: tokenizeLoop_step p_def [symmetric])
        next
          case (Some ty)
          with False notend op ih [of "Suc p"] show ?thesis
            by (auto simp: tokenizeLoop_step p_def [symmetric])
        qed
      qed
    qed
  qed
qed

lemma tokenize_wellFormed: "tokenize fpu input = Inr tokens \<Longrightarrow> wellFormed tokens"
proof -
  have "lexOk (tokenizeLoop fpu input 0 [])"
    by (rule tokenizeLoop_cases) (simp_all add: lexOk_def wellFormed_def endToken_def)
  then show "tokenize fpu input = Inr tokens \<Longrightarrow> wellFormed tokens"
    by (simp add: tokenize_def lexOk_def)
qed

lemma lexNumber_error: "lexNumber fpu input pos = Inl err \<Longrightarrow> \<not> isEvalError err"
  by (auto simp: lexNumber_def Let_def stod_def split: prod.splits if_splits sum.splits)

lemma lexHistoryRef_error: "lexHistoryRef fpu input pos = Inl err \<Longrightarrow> \<not> isEvalError err"
  by (auto simp: lexHistoryRef_def Let_def stoi_def split: prod.splits if_splits sum.splits)

lemma tokenize_error: "tokenize fpu input = Inl err \<Longrightarrow> \<not> isEvalError err"
proof -
  have "lexErr (tokenizeLoop fpu input 0 [])"
    by (rule tokenizeLoop_cases) (auto simp: lexErr_def dest: lexNumber_error lexHistoryRef_error)
  then show "tokenize fpu input = Inl err \<Longrightarrow> \<not> isEvalError err"
    by (simp add: tokenize_def lexErr_def)
qed

text \<open>The digit loop on a run of digits that ends at a character that is not a digit.\<close>

lemma digitLoop_run:
  "list_all isdigit ds \<Longrightarrow> \<not> isdigit (currentChar (pre @ ds @ post) (length pre + length ds)) \<Longrightarrow>
     digitLoop (pre @ ds @ post) (length pre) count = (length pre + length ds, count + length ds)"
proof (induction ds arbitrary: pre count)
  case Nil
  then show ?case by (simp add: digitLoop_stop)
next
  case (Cons d ds)
  from Cons.prems have d: "isdigit (currentChar (pre @ (d # ds) @ post) (length pre))"
    by (simp add: currentChar_def isAtEnd_def nth_append)
  from Cons.IH [of "pre @ [d]" "Suc count"] Cons.prems
  have "digitLoop (pre @ (d # ds) @ post) (Suc (length pre)) (Suc count)
      = (length pre + length (d # ds), count + length (d # ds))"
    by simp
  with d show ?case by (simp add: digitLoop_step)
qed

lemma not_digit_dot: "\<not> isdigit CHR ''.''" "\<not> isdigit CHR 0x00" "\<not> isspace CHR ''.''"
  by (simp_all add: isdigit_def isspace_def)

lemma isdigit_not_space: "isdigit c \<Longrightarrow> \<not> isspace c"
  by (auto simp: isdigit_def isspace_def)

section \<open>Statements\<close>

text \<open>
  \<open>parseStatement\<close> returns on every well-formed token sequence, an assignment exactly when
  the sequence starts with an identifier and \<open>=\<close>, and then with a right-hand side without
  assignment. So \<open>Calculator::evaluate\<close> always returns.
\<close>

lemma assignmentFree_statementNode: "assignmentFree node \<Longrightarrow> statementNode node"
  by (cases node) simp_all

lemma parseStatement_assignment:
  "assignmentTarget tokens = Some name \<Longrightarrow> parseStatement fuel tokens = Some (Inr ast) \<Longrightarrow>
     \<exists>expression. ast = AssignmentNode name expression \<and> assignmentFree expression"
  by (auto simp: parseStatement_def assignmentTarget_def Let_def then_parse_Inr_iff
      split: if_splits dest: parser_assignmentFree(1))

lemma parseStatement_expression:
  "assignmentTarget tokens = None \<Longrightarrow> parseStatement fuel tokens = Some (Inr ast) \<Longrightarrow>
     assignmentFree ast"
  by (auto simp: parseStatement_def assignmentTarget_def Let_def then_parse_Inr_iff
      split: if_splits dest: parser_assignmentFree(1))

lemma parseStatement_shape: "parseStatement fuel tokens = Some (Inr ast) \<Longrightarrow> statementNode ast"
  by (cases "assignmentTarget tokens")
     (auto dest: parseStatement_assignment parseStatement_expression assignmentFree_statementNode)

lemma then_parse_Inl_iff:
  "then_parse r k = Some (Inl err) \<longleftrightarrow>
     r = Some (Inl err) \<or> (\<exists>x. r = Some (Inr x) \<and> k x = Some (Inl err))"
  by (auto simp: then_parse_def split: option.splits sum.splits)

lemma parseStatement_error: "parseStatement fuel tokens = Some (Inl err) \<Longrightarrow> isParseError err"
  by (auto simp: parseStatement_def Let_def then_parse_Inl_iff then_parse_Inr_iff throwUnexpected_def
      split: if_splits dest: parser_error(1))

lemma assignment_tokens:
  assumes "wellFormed tokens" "check tokens 0 Identifier" "type (peek tokens 0 1) = Assign"
  shows "Parser_advance tokens 0 = 1" "Parser_advance tokens 1 = 2" "2 < length tokens"
proof -
  from assms(1) have ne: "0 < length tokens" by (simp add: wellFormed_def)
  from assms(1,2) ne have l1: "Suc 0 < length tokens"
    by (simp add: check_wf_simps)
  with assms(3) have "check tokens (Suc 0) Assign"
    by (simp add: peek_def check_def current_def)
  with assms(1) l1 have "Suc (Suc 0) < length tokens"
    using check_wf [of tokens "Suc 0" Assign] by simp
  then show "Parser_advance tokens 0 = 1" "Parser_advance tokens 1 = 2" "2 < length tokens"
    by (simp_all add: Parser_advance_def numeral_2_eq_2)
qed

lemma parseStatement_total:
  assumes "wellFormed tokens"
  shows "parseStatement (parseDepth tokens) tokens \<noteq> None"
proof -
  have fin: "returns ((\<lambda>(node, pos). if \<not> check tokens pos End
        then Some (Inl (throwUnexpected (current tokens pos))) else Some (Inr node)) x)"
    for x :: "'a Node \<times> nat"
    by (cases x) (simp add: returns_def)
  from assms have ne: "0 < length tokens" by (simp add: wellFormed_def)
  have "returns (parseStatement (parseDepth tokens) tokens)"
  proof (cases "check tokens 0 Identifier \<and> type (peek tokens 0 1) = Assign")
    case True
    with assms have a: "Parser_advance tokens 0 = 1" "Parser_advance tokens 1 = 2"
      "2 < length tokens" by (auto dest: assignment_tokens)
    from assms a(3) have "returns (parseExpression (parseDepth tokens) tokens 2)"
      by (intro parser_total(1)) (simp_all add: parseDepth_def)
    with True a fin show ?thesis
      by (auto simp: parseStatement_def Let_def returns_Some intro!: then_parse_total0 split: prod.splits)
  next
    case False
    from assms ne have "returns (parseExpression (parseDepth tokens) tokens 0)"
      by (intro parser_total(1)) (simp_all add: parseDepth_def)
    with False fin show ?thesis
      by (auto simp: parseStatement_def intro!: then_parse_total0)
  qed
  then show ?thesis by (simp add: returns_def)
qed

lemma evaluate_total: "evaluate fpu expression c \<noteq> None"
  using parseStatement_total [OF tokenize_wellFormed, of fpu expression]
  by (auto simp: evaluate_def split: sum.splits option.splits prod.splits)

lemma evalNode_statement_failure:
  assumes "statementNode ast" "evalNode fpu ast c = (Inl err, c')"
  shows "c' = c"
proof (cases "assignmentFree ast")
  case True
  with assms(2) evalNode_assignmentFree_context(1) [of ast fpu c] show ?thesis by simp
next
  case False
  with assms(1) obtain name expression where
    ast: "ast = AssignmentNode name expression" and free: "assignmentFree expression"
    by (cases ast) auto
  from free have "snd (evalNode fpu expression c) = c"
    by (rule evalNode_assignmentFree_context)
  with assms(2) ast show ?thesis
    by (cases "evalNode fpu expression c")
       (auto simp: setVariable_def split: sum.splits if_splits)
qed

lemma evalNode_expression_success:
  "assignmentFree ast \<Longrightarrow> evalNode fpu ast c = (r, c') \<Longrightarrow> c' = c"
  using evalNode_assignmentFree_context(1) [of ast fpu c] by simp

lemma evalNode_assignment:
  assumes "assignmentFree expression"
  shows "evalNode fpu (AssignmentNode name expression) c =
     (case fst (evalNode fpu expression c) of
        Inl err \<Rightarrow> (Inl err, c)
      | Inr v \<Rightarrow>
          if name = ''pi'' \<or> name = ''e'' then
            (Inl (EvalError (''Cannot assign to constant '' @ [CHR 0x27] @ name @ [CHR 0x27])), c)
          else (Inr v, c\<lparr>variables := (variables c)(name \<mapsto> v)\<rparr>))"
  using evalNode_assignmentFree_context(1) [OF assms, of fpu c]
  by (cases "evalNode fpu expression c") (auto simp: setVariable_def split: sum.splits)

lemma evaluate_failure:
  "evaluate fpu expression c = Some (Inl err, c') \<Longrightarrow> c' = c"
  by (auto simp: evaluate_def Evaluator_evaluate_def
      split: sum.splits option.splits prod.splits
      dest: parseStatement_shape evalNode_statement_failure)

lemma evaluate_success:
  assumes "tokenize fpu expression = Inr tokens"
    and "evaluate fpu expression c = Some (Inr v, c')"
  shows "c' = (case assignmentTarget tokens of
                 None \<Rightarrow> pushHistory c v
               | Some name \<Rightarrow> pushHistory (c\<lparr>variables := (variables c)(name \<mapsto> v)\<rparr>) v)"
proof -
  from assms obtain ast c1 where
    p: "parseStatement (parseDepth tokens) tokens = Some (Inr ast)"
    and e: "evalNode fpu ast c = (Inr v, c1)" and c': "c' = pushHistory c1 v"
    by (auto simp: evaluate_def Evaluator_evaluate_def
        split: sum.splits option.splits prod.splits)
  show ?thesis
  proof (cases "assignmentTarget tokens")
    case None
    from None p have "assignmentFree ast" by (rule parseStatement_expression)
    from this e have "c1 = c" by (rule evalNode_expression_success)
    with None c' show ?thesis by simp
  next
    case (Some name)
    from Some p obtain expression where
      ast: "ast = AssignmentNode name expression" and free: "assignmentFree expression"
      by (auto dest: parseStatement_assignment)
    from e ast evalNode_assignment [OF free, of fpu name c]
    have "c1 = c\<lparr>variables := (variables c)(name \<mapsto> v)\<rparr>"
      by (auto split: sum.splits if_splits)
    with Some c' show ?thesis by simp
  qed
qed

section \<open>Failure and success of an evaluation\<close>

text \<open>
  C1. Failure atomicity of \<open>Calculator::evaluate\<close>. The call returns on every text and every
  context, and whenever it fails, with whatever error (a \<open>ParseError\<close> of the lexer or of
  the parser, an \<open>EvalError\<close>, or the \<open>std::out_of_range\<close> of a library conversion), the
  context after the call is the context before it: no history entry is appended and no
  variable is bound or changed, also when sub-expressions had been computed before the
  failure.
\<close>

theorem evaluate_failure_atomic:
  "evaluate fpu expression c \<noteq> None
   \<and> (evaluate fpu expression c = Some (Inl err, c') \<longrightarrow> c' = c)"
  using evaluate_total [of fpu expression c] by (auto dest: evaluate_failure)

text \<open>
  In \<open>x = 2 + 1 / 0\<close> the left operand \<open>2\<close> and both operands of the division are computed
  before the division fails.
\<close>

theorem evaluate_failure_atomic_witness:
  "evaluate ideal_fpu ''x = 2 + 1 / 0'' (newContext ideal_fpu)
     = Some (Inl (EvalError ''Division by zero''), newContext ideal_fpu)"
proof -
  have "\<exists>c'. evaluate ideal_fpu ''x = 2 + 1 / 0'' (newContext ideal_fpu)
     = Some (Inl (EvalError ''Division by zero''), c')"
    by (simp add: run ideal_fpu_simps cong: then_parse_weak_cong)
  then obtain c' where h: "evaluate ideal_fpu ''x = 2 + 1 / 0'' (newContext ideal_fpu)
     = Some (Inl (EvalError ''Division by zero''), c')" ..
  from evaluate_failure_atomic [THEN conjunct2, rule_format, OF h] h show ?thesis by simp
qed

text \<open>
  C8. Success frame. The call returns, and whenever it succeeds with the value \<open>v\<close> the
  history after the call is the history before it with \<open>v\<close> appended; when the statement is
  an assignment to \<open>name\<close> the variables after the call are those before it with \<open>name\<close>
  bound to \<open>v\<close>, and for any other statement the variables are unchanged.
\<close>

theorem evaluate_success_frame:
  "evaluate fpu expression c \<noteq> None
   \<and> (tokenize fpu expression = Inr tokens \<longrightarrow> evaluate fpu expression c = Some (Inr v, c') \<longrightarrow>
        history c' = history c @ [v]
        \<and> (case assignmentTarget tokens of
              None \<Rightarrow> variables c' = variables c
            | Some name \<Rightarrow> variables c' = (variables c)(name \<mapsto> v)))"
proof (intro conjI impI)
  show "evaluate fpu expression c \<noteq> None" by (rule evaluate_total)
next
  assume "tokenize fpu expression = Inr tokens" "evaluate fpu expression c = Some (Inr v, c')"
  then have "c' = (case assignmentTarget tokens of
                 None \<Rightarrow> pushHistory c v
               | Some name \<Rightarrow> pushHistory (c\<lparr>variables := (variables c)(name \<mapsto> v)\<rparr>) v)"
    by (rule evaluate_success)
  then show "history c' = history c @ [v]"
    and "case assignmentTarget tokens of
              None \<Rightarrow> variables c' = variables c
            | Some name \<Rightarrow> variables c' = (variables c)(name \<mapsto> v)"
    by (simp_all add: pushHistory_def split: option.splits)
qed

theorem evaluate_success_frame_witness:
  "tokenize ideal_fpu ''x = 3'' =
      Inr [\<lparr>type = Identifier, lexeme = ''x'', position = 0, number_value = 0, history_index = 0\<rparr>,
           \<lparr>type = Assign, lexeme = ''='', position = 2, number_value = 0, history_index = 0\<rparr>,
           \<lparr>type = Number, lexeme = ''3'', position = 4, number_value = 3, history_index = 0\<rparr>,
           \<lparr>type = End, lexeme = [], position = 5, number_value = 0, history_index = 0\<rparr>]
   \<and> evaluate ideal_fpu ''x = 3'' (newContext ideal_fpu) =
      Some (Inr 3, \<lparr>variables = (variables (newContext ideal_fpu))(''x'' \<mapsto> 3), history = [3]\<rparr>)
   \<and> history \<lparr>variables = (variables (newContext ideal_fpu))(''x'' \<mapsto> 3), history = [3::real]\<rparr>
      = history (newContext ideal_fpu) @ [3]
   \<and> variables \<lparr>variables = (variables (newContext ideal_fpu))(''x'' \<mapsto> 3), history = [3::real]\<rparr>
      = (variables (newContext ideal_fpu))(''x'' \<mapsto> 3)"
proof -
  have t: "tokenize ideal_fpu ''x = 3'' =
      Inr [\<lparr>type = Identifier, lexeme = ''x'', position = 0, number_value = 0, history_index = 0\<rparr>,
           \<lparr>type = Assign, lexeme = ''='', position = 2, number_value = 0, history_index = 0\<rparr>,
           \<lparr>type = Number, lexeme = ''3'', position = 4, number_value = 3, history_index = 0\<rparr>,
           \<lparr>type = End, lexeme = [], position = 5, number_value = 0, history_index = 0\<rparr>]"
    by (simp add: lexer_eval ideal_fpu_simps)
  have e: "evaluate ideal_fpu ''x = 3'' (newContext ideal_fpu) =
      Some (Inr 3, \<lparr>variables = (variables (newContext ideal_fpu))(''x'' \<mapsto> 3), history = [3]\<rparr>)"
    by (simp add: run ideal_fpu_simps cong: then_parse_weak_cong)
  from evaluate_success_frame [THEN conjunct2, rule_format, OF t e] t e show ?thesis
    by (simp add: assignmentTarget_def check_def current_def peek_def)
qed

section \<open>Assignment\<close>

text \<open>
  C10. Assignment ordering. For every statement that parses to an assignment \<open>x = E\<close>,
  evaluating \<open>E\<close> leaves the context as it is, and the call is determined by the result of
  \<open>E\<close> in the context before the call: a failure of \<open>E\<close> is the failure of the call, and a
  value \<open>v\<close> of \<open>E\<close> is bound to \<open>x\<close> and appended to the history (when \<open>x\<close> is not a
  constant). In particular, the literal \<open>1\<close> being in range, \<open>x = x + 1\<close> with \<open>x\<close> bound to
  \<open>v\<close> binds \<open>x\<close> to \<open>v + 1\<close>, and with \<open>x\<close> unbound it fails with \<open>Unknown variable 'x'\<close> and
  leaves the context unchanged.
\<close>

theorem assignment_evaluates_before_binding:
  "(tokenize fpu expression = Inr tokens \<longrightarrow>
      parseStatement (parseDepth tokens) tokens = Some (Inr (AssignmentNode x rhs)) \<longrightarrow>
      snd (evalNode fpu rhs c) = c
      \<and> evaluate fpu expression c =
          Some (case fst (evalNode fpu rhs c) of
                  Inl err \<Rightarrow> (Inl err, c)
                | Inr v \<Rightarrow>
                    if x = ''pi'' \<or> x = ''e'' then
                      (Inl (EvalError (''Cannot assign to constant '' @ [CHR 0x27] @ x @ [CHR 0x27])), c)
                    else (Inr v, pushHistory (c\<lparr>variables := (variables c)(x \<mapsto> v)\<rparr>) v)))
   \<and> (\<not> fp_erange fpu 1 \<longrightarrow> variables c ''x'' = Some v \<longrightarrow>
        evaluate fpu ''x = x + 1'' c =
          Some (Inr (fp_add fpu v (fp_of_rat fpu 1)),
                pushHistory (c\<lparr>variables := (variables c)(''x'' \<mapsto> fp_add fpu v (fp_of_rat fpu 1))\<rparr>)
                  (fp_add fpu v (fp_of_rat fpu 1))))
   \<and> (\<not> fp_erange fpu 1 \<longrightarrow> variables c ''x'' = None \<longrightarrow>
        evaluate fpu ''x = x + 1'' c =
          Some (Inl (EvalError (''Unknown variable '' @ [CHR 0x27] @ ''x'' @ [CHR 0x27])), c))"
proof (intro conjI impI)
  assume t: "tokenize fpu expression = Inr tokens"
    and p: "parseStatement (parseDepth tokens) tokens = Some (Inr (AssignmentNode x rhs))"
  from p have free: "assignmentFree rhs"
    by (auto dest: parseStatement_shape)
  then show "snd (evalNode fpu rhs c) = c"
    by (rule evalNode_assignmentFree_context)
  from t p evalNode_assignment [OF free, of fpu x c]
  show "evaluate fpu expression c =
          Some (case fst (evalNode fpu rhs c) of
                  Inl err \<Rightarrow> (Inl err, c)
                | Inr v \<Rightarrow>
                    if x = ''pi'' \<or> x = ''e'' then
                      (Inl (EvalError (''Cannot assign to constant '' @ [CHR 0x27] @ x @ [CHR 0x27])), c)
                    else (Inr v, pushHistory (c\<lparr>variables := (variables c)(x \<mapsto> v)\<rparr>) v))"
    by (simp add: evaluate_def Evaluator_evaluate_def split: sum.splits)
next
  assume "\<not> fp_erange fpu 1" "variables c ''x'' = Some v"
  then show "evaluate fpu ''x = x + 1'' c =
          Some (Inr (fp_add fpu v (fp_of_rat fpu 1)),
                pushHistory (c\<lparr>variables := (variables c)(''x'' \<mapsto> fp_add fpu v (fp_of_rat fpu 1))\<rparr>)
                  (fp_add fpu v (fp_of_rat fpu 1)))"
    by (simp add: run cong: then_parse_weak_cong)
next
  assume "\<not> fp_erange fpu 1" "variables c ''x'' = None"
  then show "evaluate fpu ''x = x + 1'' c =
          Some (Inl (EvalError (''Unknown variable '' @ [CHR 0x27] @ ''x'' @ [CHR 0x27])), c)"
    by (simp add: run cong: then_parse_weak_cong)
qed

theorem assignment_evaluates_before_binding_witness:
  "tokenize ideal_fpu ''x = x + 1'' =
      Inr [\<lparr>type = Identifier, lexeme = ''x'', position = 0, number_value = 0, history_index = 0\<rparr>,
           \<lparr>type = Assign, lexeme = ''='', position = 2, number_value = 0, history_index = 0\<rparr>,
           \<lparr>type = Identifier, lexeme = ''x'', position = 4, number_value = 0, history_index = 0\<rparr>,
           \<lparr>type = PlusTok, lexeme = ''+'', position = 6, number_value = 0, history_index = 0\<rparr>,
           \<lparr>type = Number, lexeme = ''1'', position = 8, number_value = 1, history_index = 0\<rparr>,
           \<lparr>type = End, lexeme = [], position = 9, number_value = 0, history_index = 0\<rparr>]
   \<and> \<not> fp_erange ideal_fpu 1
   \<and> variables \<lparr>variables = [''x'' \<mapsto> 5::real], history = []\<rparr> ''x'' = Some 5
   \<and> evaluate ideal_fpu ''x = x + 1'' \<lparr>variables = [''x'' \<mapsto> 5], history = []\<rparr> =
        Some (Inr 6, \<lparr>variables = [''x'' \<mapsto> 6], history = [6]\<rparr>)
   \<and> variables (newContext ideal_fpu) ''x'' = None
   \<and> evaluate ideal_fpu ''x = x + 1'' (newContext ideal_fpu) =
        Some (Inl (EvalError (''Unknown variable '' @ [CHR 0x27] @ ''x'' @ [CHR 0x27])),
              newContext ideal_fpu)"
proof -
  let ?toks = "[\<lparr>type = Identifier, lexeme = ''x'', position = 0, number_value = 0::real, history_index = 0\<rparr>,
           \<lparr>type = Assign, lexeme = ''='', position = 2, number_value = 0, history_index = 0\<rparr>,
           \<lparr>type = Identifier, lexeme = ''x'', position = 4, number_value = 0, history_index = 0\<rparr>,
           \<lparr>type = PlusTok, lexeme = ''+'', position = 6, number_value = 0, history_index = 0\<rparr>,
           \<lparr>type = Number, lexeme = ''1'', position = 8, number_value = 1, history_index = 0\<rparr>,
           \<lparr>type = End, lexeme = [], position = 9, number_value = 0, history_index = 0\<rparr>]"
  let ?rhs = "BinaryNode Add (VariableNode ''x'') (NumberNode (1::real))"
  have t: "tokenize ideal_fpu ''x = x + 1'' = Inr ?toks"
    by (simp add: lexer_eval ideal_fpu_simps)
  have p: "parseStatement (parseDepth ?toks) ?toks = Some (Inr (AssignmentNode ''x'' ?rhs))"
    by (simp add: parser_eval cong: then_parse_weak_cong)
  have r: "\<not> fp_erange ideal_fpu 1"
    by (simp add: ideal_fpu_simps)
  have v: "variables \<lparr>variables = [''x'' \<mapsto> 5::real], history = []\<rparr> ''x'' = Some 5"
    by simp
  have n: "variables (newContext ideal_fpu) ''x'' = None"
    by (simp add: newContext_def)
  from assignment_evaluates_before_binding
         [of ideal_fpu "''x = x + 1''" ?toks "''x''" ?rhs "\<lparr>variables = [''x'' \<mapsto> 5], history = []\<rparr>" 5]
       assignment_evaluates_before_binding
         [of ideal_fpu "''x = x + 1''" ?toks "''x''" ?rhs "newContext ideal_fpu" 5]
       t p r v n
  show ?thesis
    by (simp add: ideal_fpu_simps context_eval)
qed

section \<open>History references\<close>

text \<open>
  The text \<open>$\<close> followed by digits is one \<open>HistoryRef\<close> token when the value of the digits
  fits an \<open>int\<close>; it then parses to the tree \<open>HistoryRefNode\<close> of that value and is evaluated
  by \<open>getHistoryValue\<close>. When the value does not fit, \<open>std::stoi\<close> throws in the lexer.
\<close>

lemma lexHistoryRef_digits:
  assumes "ds \<noteq> []" "list_all isdigit ds"
  shows "lexHistoryRef fpu (CHR ''$'' # ds) 0 =
     (if 2147483647 < digits_value ds then Inl (OutOfRange ''stoi'')
      else Inr (\<lparr>type = HistoryRef, lexeme = CHR ''$'' # ds, position = 0,
                 number_value = fp_of_rat fpu 0, history_index = int (digits_value ds)\<rparr>,
                Suc (length ds)))"
proof -
  have l: "digitLoop (CHR ''$'' # ds) (Suc 0) 0 = (Suc (length ds), length ds)"
    using digitLoop_run [of ds "''$''" "[]" 0] assms(2)
    by (simp add: currentChar_def isAtEnd_def not_digit_dot)
  from assms show ?thesis
    by (simp add: lexHistoryRef_def l advance_def isAtEnd_def substr_def stoi_def)
qed

lemma tokenize_history_ref:
  assumes "ds \<noteq> []" "list_all isdigit ds"
  shows "tokenize fpu (CHR ''$'' # ds) =
     (if 2147483647 < digits_value ds then Inl (OutOfRange ''stoi'')
      else Inr [\<lparr>type = HistoryRef, lexeme = CHR ''$'' # ds, position = 0,
                 number_value = fp_of_rat fpu 0, history_index = int (digits_value ds)\<rparr>,
                endToken fpu (Suc (length ds))])"
proof -
  have c0: "currentChar (CHR ''$'' # ds) 0 = CHR ''$''"
    by (simp add: currentChar_def isAtEnd_def)
  have ne: "\<not> isAtEnd (CHR ''$'' # ds) 0"
    by (simp add: isAtEnd_def)
  have sk: "skipWhitespace (CHR ''$'' # ds) 0 = 0"
    by (rule skipWhitespace_stop) (simp add: c0 isspace_def)
  have e: "isAtEnd (CHR ''$'' # ds) (Suc (length ds))"
    by (simp add: isAtEnd_def)
  show ?thesis
    by (simp add: tokenize_def tokenizeLoop_step [OF ne] sk ne c0 isdigit_def isIdentifierStart_def
        isalpha_def lexHistoryRef_digits [OF assms] tokenizeLoop_end [OF e])
qed

lemma parseStatement_history_ref:
  "parseStatement (parseDepth [\<lparr>type = HistoryRef, lexeme = l, position = p,
                 number_value = x, history_index = N\<rparr>, endToken fpu q])
      [\<lparr>type = HistoryRef, lexeme = l, position = p, number_value = x, history_index = N\<rparr>,
       endToken fpu q]
     = Some (Inr (HistoryRefNode N))"
  by (simp add: parser_eval endToken_def cong: then_parse_weak_cong)

lemma evaluate_history_ref_out_of_range:
  assumes "ds \<noteq> []" "list_all isdigit ds" "2147483647 < digits_value ds"
  shows "evaluate fpu (CHR ''$'' # ds) c = Some (Inl (OutOfRange ''stoi''), c)"
  using assms(3) by (simp add: evaluate_def tokenize_history_ref [OF assms(1,2)])

lemma evaluate_history_ref:
  assumes "ds \<noteq> []" "list_all isdigit ds" "digits_value ds \<le> 2147483647"
  shows "evaluate fpu (CHR ''$'' # ds) c =
     Some (case getHistoryValue c (int (digits_value ds)) of
             Inl err \<Rightarrow> (Inl err, c) | Inr v \<Rightarrow> (Inr v, pushHistory c v))"
  using assms(3)
  by (simp add: evaluate_def tokenize_history_ref [OF assms(1,2)] parseStatement_history_ref
      Evaluator_evaluate_def split: sum.splits)

text \<open>
  Where a reference reaches the evaluator it behaves as described: in a context whose
  history has length \<open>L\<close> the tree \<open>HistoryRefNode N\<close> yields the \<open>N\<close>-th entry exactly when
  \<open>1 \<le> N \<le> L\<close> and fails with the \<open>EvalError\<close> \<open>History reference '$N' out of range\<close>
  otherwise; no evaluation of a tree changes the history, so \<open>$(L + 1)\<close> fails; a successful
  \<open>evaluate\<close> appends exactly one entry, a failed one none; and so does \<open>evaluate\<close> on the
  text \<open>$\<close> followed by the digits of an \<open>N\<close> that fits an \<open>int\<close>.
\<close>

lemma history_reference_in_range:
  "evalNode fpu (HistoryRefNode N) c =
     ((if 1 \<le> N \<and> N \<le> int (length (history c)) then Inr (history c ! nat (N - 1))
       else Inl (EvalError (''History reference '' @ [CHR 0x27] @ ''$'' @ show_int N
                   @ [CHR 0x27] @ '' out of range''))), c)
   \<and> history (snd (evalNode fpu node c)) = history c
   \<and> isl (fst (evalNode fpu (HistoryRefNode (int (length (history c)) + 1)) c))
   \<and> (evaluate fpu expression c = Some (Inr v, c') \<longrightarrow> history c' = history c @ [v])
   \<and> (evaluate fpu expression c = Some (Inl err, c') \<longrightarrow> history c' = history c)
   \<and> (ds \<noteq> [] \<longrightarrow> list_all isdigit ds \<longrightarrow> digits_value ds \<le> 2147483647 \<longrightarrow>
        evaluate fpu (CHR ''$'' # ds) c =
          Some (if 1 \<le> digits_value ds \<and> digits_value ds \<le> length (history c)
                then (Inr (history c ! (digits_value ds - 1)),
                      pushHistory c (history c ! (digits_value ds - 1)))
                else (Inl (EvalError (''History reference '' @ [CHR 0x27] @ ''$''
                             @ show_int (int (digits_value ds)) @ [CHR 0x27]
                             @ '' out of range'')), c)))"
proof (intro conjI impI)
  show "evalNode fpu (HistoryRefNode N) c =
     ((if 1 \<le> N \<and> N \<le> int (length (history c)) then Inr (history c ! nat (N - 1))
       else Inl (EvalError (''History reference '' @ [CHR 0x27] @ ''$'' @ show_int N
                   @ [CHR 0x27] @ '' out of range''))), c)"
    by (auto simp: getHistoryValue_def)
  show "history (snd (evalNode fpu node c)) = history c"
    by (rule evalNode_history)
  show "isl (fst (evalNode fpu (HistoryRefNode (int (length (history c)) + 1)) c))"
    by (simp add: getHistoryValue_def)
next
  assume "evaluate fpu expression c = Some (Inr v, c')"
  then show "history c' = history c @ [v]"
    using evalNode_history(1) [of fpu _ c]
    by (auto simp: evaluate_def Evaluator_evaluate_def pushHistory_def
        split: sum.splits option.splits prod.splits) (metis snd_conv)
next
  assume "evaluate fpu expression c = Some (Inl err, c')"
  then show "history c' = history c"
    by (auto dest: evaluate_failure)
next
  assume "ds \<noteq> []" "list_all isdigit ds" "digits_value ds \<le> 2147483647"
  then have "evaluate fpu (CHR ''$'' # ds) c =
     Some (case getHistoryValue c (int (digits_value ds)) of
             Inl err \<Rightarrow> (Inl err, c) | Inr v \<Rightarrow> (Inr v, pushHistory c v))"
    by (rule evaluate_history_ref)
  then show "evaluate fpu (CHR ''$'' # ds) c =
          Some (if 1 \<le> digits_value ds \<and> digits_value ds \<le> length (history c)
                then (Inr (history c ! (digits_value ds - 1)),
                      pushHistory c (history c ! (digits_value ds - 1)))
                else (Inl (EvalError (''History reference '' @ [CHR 0x27] @ ''$''
                             @ show_int (int (digits_value ds)) @ [CHR 0x27]
                             @ '' out of range'')), c))"
    using nat_diff_distrib' [of "int (digits_value ds)" 1]
    by (auto simp: getHistoryValue_def)
qed

lemma history_reference_examples:
  "evaluate ideal_fpu ''$1 + $2'' \<lparr>variables = Map.empty, history = [10, 20]\<rparr> =
      Some (Inr 30, \<lparr>variables = Map.empty, history = [10, 20, 30]\<rparr>)
   \<and> history \<lparr>variables = Map.empty, history = [10, 20, 30::real]\<rparr>
        = history \<lparr>variables = Map.empty, history = [10, 20::real]\<rparr> @ [30]
   \<and> list_all isdigit ''3'' \<and> digits_value ''3'' = 3
   \<and> evaluate ideal_fpu ''$3'' \<lparr>variables = Map.empty, history = [10, 20]\<rparr> =
      Some (Inl (EvalError (''History reference '' @ [CHR 0x27] @ ''$3'' @ [CHR 0x27]
                   @ '' out of range'')), \<lparr>variables = Map.empty, history = [10, 20]\<rparr>)
   \<and> evaluate ideal_fpu ''$0'' \<lparr>variables = Map.empty, history = [10, 20]\<rparr> =
      Some (Inl (EvalError (''History reference '' @ [CHR 0x27] @ ''$0'' @ [CHR 0x27]
                   @ '' out of range'')), \<lparr>variables = Map.empty, history = [10, 20]\<rparr>)"
proof -
  let ?c = "\<lparr>variables = Map.empty, history = [10, 20::real]\<rparr>"
  have a: "evaluate ideal_fpu ''$1 + $2'' ?c =
      Some (Inr 30, \<lparr>variables = Map.empty, history = [10, 20, 30]\<rparr>)"
    by (simp add: run ideal_fpu_simps cong: then_parse_weak_cong)
  have d: "list_all isdigit ''3''" "digits_value ''3'' = 3"
    by (simp_all add: isdigit_def digits_value_def digit_value_def)
  have c: "evaluate ideal_fpu ''$0'' ?c =
      Some (Inl (EvalError (''History reference '' @ [CHR 0x27] @ ''$0'' @ [CHR 0x27]
                   @ '' out of range'')), ?c)"
    by (simp add: run ideal_fpu_simps cong: then_parse_weak_cong)
  from history_reference_in_range
         [of ideal_fpu 3 ?c "NumberNode 0" "''$1 + $2''" 30
            "\<lparr>variables = Map.empty, history = [10, 20, 30]\<rparr>" "EvalError []" "''3''"]
       a c d
  show ?thesis by (simp add: show_int_def show_nat_digit digit_char_def)
qed

text \<open>
  C6 (the code departs from the claim). The claim: for every history reference \<open>$N\<close>, in
  a context whose history has length \<open>L\<close>, the reference yields the \<open>N\<close>-th entry exactly
  when \<open>1 \<le> N \<le> L\<close> and fails with an evaluation error otherwise, \<open>N > L\<close> included. The
  digits of \<open>N\<close> go to \<open>std::stoi\<close> unguarded (the defect of C2): for \<open>N\<close> beyond \<open>INT_MAX\<close>,
  as in \<open>$99999999999\<close> and \<open>$2147483648\<close>, the call fails in the lexer with
  \<open>std::out_of_range\<close>, which is not an evaluation error, in every context.
\<close>

theorem history_reference_out_of_range:
  "evaluate fpu ''$99999999999'' c = Some (Inl (OutOfRange ''stoi''), c)
   \<and> evaluate fpu ''$2147483648'' c = Some (Inl (OutOfRange ''stoi''), c)
   \<and> \<not> isEvalError (OutOfRange ''stoi'')"
  by (simp add: evaluate_def lexer_eval)

section \<open>The constants\<close>

lemma evaluate_constants:
  assumes "evaluate fpu expression c = Some (r, c')" and "name = ''pi'' \<or> name = ''e''"
  shows "variables c' name = variables c name"
proof -
  have k: "variables (snd (evalNode fpu ast c)) name = variables c name" for ast
    using assms(2) by (rule evalNode_constants)
  from assms(1) show ?thesis
    using k
    by (auto simp: evaluate_def Evaluator_evaluate_def pushHistory_def
        split: sum.splits option.splits prod.splits) (metis snd_conv)+
qed

lemma reachable_constants:
  "reachable fpu c \<Longrightarrow>
     variables c ''pi'' = Some (fp_acos fpu (fp_of_rat fpu (- 1)))
     \<and> variables c ''e'' = Some (fp_exp fpu (fp_of_rat fpu 1))"
proof (induction rule: reachable.induct)
  case start
  show ?case by (simp add: newContext_def)
next
  case (step c expression r c')
  from evaluate_constants [OF step.hyps(2), of "''pi''"]
       evaluate_constants [OF step.hyps(2), of "''e''"] step.IH
  show ?case by simp
qed

lemma assignment_to_constant_fails:
  assumes t: "tokenize fpu expression = Inr tokens"
    and a: "assignmentTarget tokens = Some name"
    and n: "name = ''pi'' \<or> name = ''e''"
  shows "\<exists>err. evaluate fpu expression c = Some (Inl err, c)"
proof (cases "parseStatement (parseDepth tokens) tokens")
  case None
  with parseStatement_total [OF tokenize_wellFormed [OF t]] show ?thesis by simp
next
  case (Some r)
  show ?thesis
  proof (cases r)
    case (Inl err)
    with Some t show ?thesis by (simp add: evaluate_def)
  next
    case (Inr ast)
    with Some a obtain rhs where
      ast: "ast = AssignmentNode name rhs" and free: "assignmentFree rhs"
      by (auto dest: parseStatement_assignment)
    from evalNode_assignment [OF free, of fpu name c] n Some Inr ast t show ?thesis
      by (auto simp: evaluate_def Evaluator_evaluate_def split: sum.splits)
  qed
qed

lemma evaluate_lexer_failure:
  "tokenize fpu expression = Inl err \<Longrightarrow> evaluate fpu expression c = Some (Inl err, c)"
  by (simp add: evaluate_def)

lemma evaluate_parser_failure:
  "tokenize fpu expression = Inr tokens \<Longrightarrow>
   parseStatement (parseDepth tokens) tokens = Some (Inl err) \<Longrightarrow>
     evaluate fpu expression c = Some (Inl err, c)"
  by (simp add: evaluate_def)

lemma assignment_to_constant_result:
  assumes t: "tokenize fpu expression = Inr tokens"
    and n: "name = ''pi'' \<or> name = ''e''"
    and p: "parseStatement (parseDepth tokens) tokens = Some (Inr (AssignmentNode name rhs))"
  shows "evaluate fpu expression c =
     Some (case fst (evalNode fpu rhs c) of
             Inl err \<Rightarrow> (Inl err, c)
           | Inr v \<Rightarrow>
               (Inl (EvalError (''Cannot assign to constant '' @ [CHR 0x27] @ name @ [CHR 0x27])), c))"
proof -
  from p have free: "assignmentFree rhs" by (auto dest: parseStatement_shape)
  from evalNode_assignment [OF free, of fpu name c] t n p show ?thesis
    by (simp add: evaluate_def Evaluator_evaluate_def split: sum.splits)
qed

text \<open>
  C7 (amended). In every context of a session \<open>pi\<close> and \<open>e\<close> are bound to \<open>acos(-1)\<close> and
  \<open>exp(1)\<close>. An \<open>evaluate\<close> call on a text that the lexer rejects fails with the error
  of the lexer (a \<open>ParseError\<close>, or the \<open>std::out_of_range\<close> of a library conversion, as for
  \<open>pi = $99999999999\<close>) and leaves the context unchanged. An \<open>evaluate\<close> call on a statement
  \<open>pi = E\<close> or \<open>e = E\<close>, a token sequence that starts with the identifier and \<open>=\<close>, fails
  and leaves the context unchanged, and the parser returns on it: when the statement does
  not parse, the error is the \<open>ParseError\<close> of the parser; when it parses, it parses to the
  assignment of some \<open>E\<close> to the constant, and when the evaluation of \<open>E\<close> fails the error
  is that of \<open>E\<close>, an \<open>EvalError\<close>, and when \<open>E\<close> evaluates to a value the error is the
  \<open>EvalError\<close> \<open>Cannot assign to constant\<close> that names the constant.
\<close>

theorem protected_constants:
  "(reachable fpu c \<longrightarrow>
      variables c ''pi'' = Some (fp_acos fpu (fp_of_rat fpu (- 1)))
      \<and> variables c ''e'' = Some (fp_exp fpu (fp_of_rat fpu 1)))
   \<and> (tokenize fpu expression = Inl lexerError \<longrightarrow>
        evaluate fpu expression c = Some (Inl lexerError, c))
   \<and> (tokenize fpu expression = Inr tokens \<longrightarrow> assignmentTarget tokens = Some name \<longrightarrow>
        name = ''pi'' \<or> name = ''e'' \<longrightarrow>
        (\<exists>err. evaluate fpu expression c = Some (Inl err, c))
        \<and> parseStatement (parseDepth tokens) tokens \<noteq> None
        \<and> (\<forall>err. parseStatement (parseDepth tokens) tokens = Some (Inl err)
              \<longrightarrow> isParseError err \<and> evaluate fpu expression c = Some (Inl err, c))
        \<and> (\<forall>ast. parseStatement (parseDepth tokens) tokens = Some (Inr ast)
              \<longrightarrow> (\<exists>rhs. ast = AssignmentNode name rhs))
        \<and> (\<forall>rhs err. parseStatement (parseDepth tokens) tokens = Some (Inr (AssignmentNode name rhs))
              \<longrightarrow> fst (evalNode fpu rhs c) = Inl err
              \<longrightarrow> isEvalError err \<and> evaluate fpu expression c = Some (Inl err, c))
        \<and> (\<forall>rhs v. parseStatement (parseDepth tokens) tokens = Some (Inr (AssignmentNode name rhs))
              \<longrightarrow> fst (evalNode fpu rhs c) = Inr v
              \<longrightarrow> evaluate fpu expression c =
                    Some (Inl (EvalError (''Cannot assign to constant '' @ [CHR 0x27] @ name
                                 @ [CHR 0x27])), c)))"
proof (intro conjI impI allI)
  assume "reachable fpu c"
  then show "variables c ''pi'' = Some (fp_acos fpu (fp_of_rat fpu (- 1)))"
    and "variables c ''e'' = Some (fp_exp fpu (fp_of_rat fpu 1))"
    by (simp_all add: reachable_constants)
next
  assume "tokenize fpu expression = Inl lexerError"
  then show "evaluate fpu expression c = Some (Inl lexerError, c)"
    by (rule evaluate_lexer_failure)
next
  assume "tokenize fpu expression = Inr tokens" "assignmentTarget tokens = Some name"
    "name = ''pi'' \<or> name = ''e''"
  then show "\<exists>err. evaluate fpu expression c = Some (Inl err, c)"
    by (rule assignment_to_constant_fails)
next
  assume "tokenize fpu expression = Inr tokens"
  then show "parseStatement (parseDepth tokens) tokens \<noteq> None"
    by (intro parseStatement_total tokenize_wellFormed)
next
  fix err
  assume "parseStatement (parseDepth tokens) tokens = Some (Inl err)"
  then show "isParseError err" by (rule parseStatement_error)
next
  fix err
  assume "tokenize fpu expression = Inr tokens"
    "parseStatement (parseDepth tokens) tokens = Some (Inl err)"
  then show "evaluate fpu expression c = Some (Inl err, c)"
    by (rule evaluate_parser_failure)
next
  fix ast
  assume "assignmentTarget tokens = Some name"
    "parseStatement (parseDepth tokens) tokens = Some (Inr ast)"
  then show "\<exists>rhs. ast = AssignmentNode name rhs"
    by (auto dest: parseStatement_assignment)
next
  fix rhs err
  assume "fst (evalNode fpu rhs c) = Inl err"
  then show "isEvalError err" by (rule evalNode_error)
next
  fix rhs err
  assume "tokenize fpu expression = Inr tokens" "name = ''pi'' \<or> name = ''e''"
    "parseStatement (parseDepth tokens) tokens = Some (Inr (AssignmentNode name rhs))"
    and e: "fst (evalNode fpu rhs c) = Inl err"
  then have "evaluate fpu expression c =
     Some (case fst (evalNode fpu rhs c) of
             Inl err \<Rightarrow> (Inl err, c)
           | Inr v \<Rightarrow>
               (Inl (EvalError (''Cannot assign to constant '' @ [CHR 0x27] @ name @ [CHR 0x27])), c))"
    by (intro assignment_to_constant_result)
  with e show "evaluate fpu expression c = Some (Inl err, c)" by simp
next
  fix rhs v
  assume "tokenize fpu expression = Inr tokens" "name = ''pi'' \<or> name = ''e''"
    "parseStatement (parseDepth tokens) tokens = Some (Inr (AssignmentNode name rhs))"
    and e: "fst (evalNode fpu rhs c) = Inr v"
  then have "evaluate fpu expression c =
     Some (case fst (evalNode fpu rhs c) of
             Inl err \<Rightarrow> (Inl err, c)
           | Inr v \<Rightarrow>
               (Inl (EvalError (''Cannot assign to constant '' @ [CHR 0x27] @ name @ [CHR 0x27])), c))"
    by (intro assignment_to_constant_result)
  with e show "evaluate fpu expression c =
          Some (Inl (EvalError (''Cannot assign to constant '' @ [CHR 0x27] @ name @ [CHR 0x27])), c)"
    by simp
qed

text \<open>
  The claim as stated, that every such attempt fails with an evaluation error naming the
  constant, does not hold: the error of \<open>pi = 1 / 0\<close> is \<open>Division by zero\<close>.
\<close>

theorem assignment_to_pi_counterexample:
  "evaluate ideal_fpu ''pi = 1 / 0'' (newContext ideal_fpu)
     = Some (Inl (EvalError ''Division by zero''), newContext ideal_fpu)"
  by (simp add: run ideal_fpu_simps cong: then_parse_weak_cong)

lemma reachable_after_x3:
  "reachable ideal_fpu \<lparr>variables = (variables (newContext ideal_fpu))(''x'' \<mapsto> 3), history = [3]\<rparr>"
proof -
  have e: "evaluate ideal_fpu ''x = 3'' (newContext ideal_fpu) =
      Some (Inr 3, \<lparr>variables = (variables (newContext ideal_fpu))(''x'' \<mapsto> 3), history = [3]\<rparr>)"
    by (simp add: run ideal_fpu_simps cong: then_parse_weak_cong)
  from reachable.step [OF reachable.start e] show ?thesis .
qed

theorem protected_constants_witness:
  "reachable ideal_fpu \<lparr>variables = (variables (newContext ideal_fpu))(''x'' \<mapsto> 3), history = [3::real]\<rparr>
   \<and> variables \<lparr>variables = (variables (newContext ideal_fpu))(''x'' \<mapsto> 3), history = [3::real]\<rparr> ''pi'' = Some (arccos (- 1))
   \<and> variables \<lparr>variables = (variables (newContext ideal_fpu))(''x'' \<mapsto> 3), history = [3::real]\<rparr> ''e'' = Some (exp 1)
   \<and> tokenize ideal_fpu ''pi = $99999999999'' = Inl (OutOfRange ''stoi'')
   \<and> evaluate ideal_fpu ''pi = $99999999999'' (newContext ideal_fpu)
       = Some (Inl (OutOfRange ''stoi''), newContext ideal_fpu)
   \<and> evaluate ideal_fpu ''pi = 4'' (newContext ideal_fpu)
       = Some (Inl (EvalError (''Cannot assign to constant '' @ [CHR 0x27] @ ''pi'' @ [CHR 0x27])), newContext ideal_fpu)
   \<and> evaluate ideal_fpu ''pi = 1 / 0'' (newContext ideal_fpu)
       = Some (Inl (EvalError ''Division by zero''), newContext ideal_fpu)
   \<and> isEvalError (EvalError ''Division by zero'')
   \<and> evaluate ideal_fpu ''e = )'' (newContext ideal_fpu)
       = Some (Inl (ParseError (''Unexpected token '' @ [CHR 0x27] @ '')'' @ [CHR 0x27] @ '' at position 4'')), newContext ideal_fpu)
   \<and> isParseError (ParseError (''Unexpected token '' @ [CHR 0x27] @ '')'' @ [CHR 0x27] @ '' at position 4''))"
proof -
  let ?c = "newContext ideal_fpu"
  let ?r = "\<lparr>variables = (variables (newContext ideal_fpu))(''x'' \<mapsto> 3), history = [3::real]\<rparr>"
  let ?four = "[\<lparr>type = Identifier, lexeme = ''pi'', position = 0, number_value = 0::real, history_index = 0\<rparr>,
       \<lparr>type = Assign, lexeme = ''='', position = 3, number_value = 0, history_index = 0\<rparr>,
       \<lparr>type = Number, lexeme = ''4'', position = 5, number_value = 4, history_index = 0\<rparr>,
       \<lparr>type = End, lexeme = [], position = 6, number_value = 0, history_index = 0\<rparr>]"
  let ?div = "[\<lparr>type = Identifier, lexeme = ''pi'', position = 0, number_value = 0::real, history_index = 0\<rparr>,
       \<lparr>type = Assign, lexeme = ''='', position = 3, number_value = 0, history_index = 0\<rparr>,
       \<lparr>type = Number, lexeme = ''1'', position = 5, number_value = 1, history_index = 0\<rparr>,
       \<lparr>type = Slash, lexeme = ''/'', position = 7, number_value = 0, history_index = 0\<rparr>,
       \<lparr>type = Number, lexeme = ''0'', position = 9, number_value = 0, history_index = 0\<rparr>,
       \<lparr>type = End, lexeme = [], position = 10, number_value = 0, history_index = 0\<rparr>]"
  let ?par = "[\<lparr>type = Identifier, lexeme = ''e'', position = 0, number_value = 0::real, history_index = 0\<rparr>,
       \<lparr>type = Assign, lexeme = ''='', position = 2, number_value = 0, history_index = 0\<rparr>,
       \<lparr>type = RParen, lexeme = '')'', position = 4, number_value = 0, history_index = 0\<rparr>,
       \<lparr>type = End, lexeme = [], position = 5, number_value = 0, history_index = 0\<rparr>]"
  note constants = protected_constants [where fpu = ideal_fpu]
  have reach: "variables ?r ''pi'' = Some (arccos (- 1)) \<and> variables ?r ''e'' = Some (exp 1)"
    using constants [where c = ?r, THEN conjunct1, rule_format, OF reachable_after_x3]
    by (simp add: ideal_fpu_simps)
  have tl: "tokenize ideal_fpu ''pi = $99999999999'' = Inl (OutOfRange ''stoi'')"
    by (simp add: lexer_eval)
  have big: "evaluate ideal_fpu ''pi = $99999999999'' ?c = Some (Inl (OutOfRange ''stoi''), ?c)"
    by (rule constants [THEN conjunct2, THEN conjunct1, rule_format, OF tl])
  have t4: "tokenize ideal_fpu ''pi = 4'' = Inr ?four"
    and td: "tokenize ideal_fpu ''pi = 1 / 0'' = Inr ?div"
    and tp: "tokenize ideal_fpu ''e = )'' = Inr ?par"
    by (simp_all add: lexer_eval ideal_fpu_simps)
  have a4: "assignmentTarget ?four = Some ''pi''" and ad: "assignmentTarget ?div = Some ''pi''"
    and ap: "assignmentTarget ?par = Some ''e''"
    by (simp_all add: assignmentTarget_def check_def current_def peek_def)
  have p4: "parseStatement (parseDepth ?four) ?four = Some (Inr (AssignmentNode ''pi'' (NumberNode 4)))"
    by (simp add: parser_eval cong: then_parse_weak_cong)
  have pd: "parseStatement (parseDepth ?div) ?div
      = Some (Inr (AssignmentNode ''pi'' (BinaryNode Divide (NumberNode 1) (NumberNode 0))))"
    by (simp add: parser_eval cong: then_parse_weak_cong)
  have pp: "parseStatement (parseDepth ?par) ?par = Some (Inl (ParseError (''Unexpected token '' @ [CHR 0x27] @ '')'' @ [CHR 0x27] @ '' at position 4'')))"
    by (simp add: parser_eval show_nat_digit digit_char_def cong: then_parse_weak_cong)
  have v4: "fst (evalNode ideal_fpu (NumberNode 4) ?c) = Inr 4"
    by simp
  have vd: "fst (evalNode ideal_fpu (BinaryNode Divide (NumberNode 1) (NumberNode 0)) ?c)
      = Inl (EvalError ''Division by zero'')"
    by (simp add: context_eval ideal_fpu_simps)
  have four: "evaluate ideal_fpu ''pi = 4'' ?c = Some (Inl (EvalError (''Cannot assign to constant '' @ [CHR 0x27] @ ''pi'' @ [CHR 0x27])), ?c)"
    using constants [where c = ?c, THEN conjunct2, THEN conjunct2, rule_format, OF t4 a4] p4 v4
    by simp
  have div: "isEvalError (EvalError ''Division by zero'')
      \<and> evaluate ideal_fpu ''pi = 1 / 0'' ?c = Some (Inl (EvalError ''Division by zero''), ?c)"
    using constants [where c = ?c, THEN conjunct2, THEN conjunct2, rule_format, OF td ad] pd vd
    by simp
  have par: "isParseError (ParseError (''Unexpected token '' @ [CHR 0x27] @ '')'' @ [CHR 0x27] @ '' at position 4''))
      \<and> evaluate ideal_fpu ''e = )'' ?c = Some (Inl (ParseError (''Unexpected token '' @ [CHR 0x27] @ '')'' @ [CHR 0x27] @ '' at position 4'')), ?c)"
    using constants [where c = ?c, THEN conjunct2, THEN conjunct2, rule_format, OF tp ap] pp
    by simp
  from reachable_after_x3 reach tl big four div par show ?thesis
    by simp
qed

section \<open>The kinds of error\<close>

text \<open>
  The claim C3 has three disjoint kinds of error, with a lexical error distinguishable
  from a syntax error. \<open>Token.h\<close> declares two, and the lexer and the parser throw the same
  one: the failure of the lexer on \<open>@\<close> and the failure of the parser on \<open>)\<close> are both
  \<open>ParseError\<close>s, with messages of the same form.
\<close>

theorem lexical_and_syntax_errors_same_class:
  "tokenize ideal_fpu ''@'' =
      Inl (ParseError (''Unexpected token '' @ [CHR 0x27] @ ''@'' @ [CHR 0x27] @ '' at position 0''))
   \<and> tokenize ideal_fpu '')'' =
      Inr [\<lparr>type = RParen, lexeme = '')'', position = 0, number_value = 0, history_index = 0\<rparr>,
           \<lparr>type = End, lexeme = [], position = 1, number_value = 0, history_index = 0\<rparr>]
   \<and> parseStatement 27
        [\<lparr>type = RParen, lexeme = '')'', position = 0, number_value = 0::real, history_index = 0\<rparr>,
         \<lparr>type = End, lexeme = [], position = 1, number_value = 0, history_index = 0\<rparr>] =
      Some (Inl (ParseError (''Unexpected token '' @ [CHR 0x27] @ '')'' @ [CHR 0x27] @ '' at position 0'')))"
  by (simp add: lexer_eval parser_eval ideal_fpu_simps cong: then_parse_weak_cong)

text \<open>
  C3 (amended). There are two disjoint kinds of \<open>CalcError\<close>: every \<open>CalcError\<close> of the
  lexer and every failure of the parser is a \<open>ParseError\<close>, every failure of the evaluator is
  an \<open>EvalError\<close>, no error is both, and a \<open>CalcError\<close> is one or the other.
\<close>

theorem error_taxonomy:
  "(tokenize fpu input = Inl err \<longrightarrow> isCalcError err \<longrightarrow> isParseError err)
   \<and> (parseStatement fuel tokens = Some (Inl err) \<longrightarrow> isParseError err)
   \<and> (fst (evalNode fpu node c) = Inl err \<longrightarrow> isEvalError err)
   \<and> \<not> (isParseError err \<and> isEvalError err)
   \<and> (isCalcError err \<longleftrightarrow> isParseError err \<or> isEvalError err)"
proof (intro conjI impI)
  assume "tokenize fpu input = Inl err" "isCalcError err"
  then show "isParseError err"
    by (cases err) (auto dest: tokenize_error)
next
  assume "parseStatement fuel tokens = Some (Inl err)"
  then show "isParseError err" by (rule parseStatement_error)
next
  assume "fst (evalNode fpu node c) = Inl err"
  then show "isEvalError err" by (rule evalNode_error)
next
  show "\<not> (isParseError err \<and> isEvalError err)" by (cases err) simp_all
  show "isCalcError err \<longleftrightarrow> isParseError err \<or> isEvalError err" by (cases err) simp_all
qed

theorem error_taxonomy_witness:
  "tokenize ideal_fpu ''@'' =
      Inl (ParseError (''Unexpected token '' @ [CHR 0x27] @ ''@'' @ [CHR 0x27] @ '' at position 0''))
   \<and> isCalcError (ParseError (''Unexpected token '' @ [CHR 0x27] @ ''@'' @ [CHR 0x27] @ '' at position 0''))
   \<and> isParseError (ParseError (''Unexpected token '' @ [CHR 0x27] @ ''@'' @ [CHR 0x27] @ '' at position 0''))
   \<and> parseStatement 27
        [\<lparr>type = RParen, lexeme = '')'', position = 0, number_value = 0::real, history_index = 0\<rparr>,
         \<lparr>type = End, lexeme = [], position = 1, number_value = 0, history_index = 0\<rparr>] =
      Some (Inl (ParseError (''Unexpected token '' @ [CHR 0x27] @ '')'' @ [CHR 0x27] @ '' at position 0'')))
   \<and> isParseError (ParseError (''Unexpected token '' @ [CHR 0x27] @ '')'' @ [CHR 0x27] @ '' at position 0''))
   \<and> fst (evalNode ideal_fpu (BinaryNode Divide (NumberNode 1) (NumberNode 0)) (newContext ideal_fpu))
      = Inl (EvalError ''Division by zero'')
   \<and> isEvalError (EvalError ''Division by zero'')"
proof -
  let ?toks = "[\<lparr>type = RParen, lexeme = '')'', position = 0, number_value = 0::real, history_index = 0\<rparr>,
         \<lparr>type = End, lexeme = [], position = 1, number_value = 0, history_index = 0\<rparr>]"
  let ?e1 = "ParseError (''Unexpected token '' @ [CHR 0x27] @ ''@'' @ [CHR 0x27] @ '' at position 0'')"
  let ?e2 = "ParseError (''Unexpected token '' @ [CHR 0x27] @ '')'' @ [CHR 0x27] @ '' at position 0'')"
  let ?e3 = "EvalError ''Division by zero''"
  let ?node = "BinaryNode Divide (NumberNode 1) (NumberNode (0::real))"
  have a: "tokenize ideal_fpu ''@'' = Inl ?e1"
    by (simp add: lexer_eval)
  have b: "parseStatement 27 ?toks = Some (Inl ?e2)"
    by (simp add: parser_eval show_nat_digit digit_char_def cong: then_parse_weak_cong)
  have c: "fst (evalNode ideal_fpu ?node (newContext ideal_fpu)) = Inl ?e3"
    by (simp add: context_eval ideal_fpu_simps)
  from error_taxonomy [of ideal_fpu "''@''" ?e1 27 ?toks ?node "newContext ideal_fpu"]
       error_taxonomy [of ideal_fpu "''@''" ?e2 27 ?toks ?node "newContext ideal_fpu"]
       error_taxonomy [of ideal_fpu "''@''" ?e3 27 ?toks ?node "newContext ideal_fpu"]
       a b c
  show ?thesis by simp
qed

section \<open>The lexer and the library conversions\<close>

lemma stod_exponent_out_of_range: "stod ideal_fpu ''1e999'' = Inl (OutOfRange ''stod'')"
proof -
  have "decimal_value ''1e999'' = 10 ^ 999"
    by (simp add: decimal_value_def exponent_value_def scale10_def digits_value_def
        digit_value_def isdigit_def del: power_numeral)
  moreover have "(2::rat) ^ 1024 - 2 ^ 970 \<le> \<bar>10 ^ 999\<bar>"
    by simp
  ultimately show ?thesis
    by (simp add: stod_def ideal_fpu_simps del: power_numeral)
qed

text \<open>
  C2 (the code departs from the claim). The claim: \<open>tokenize\<close> fails only with a lexical
  error and only in three cases, and returns a token sequence on every other input, among
  them literals and history references of any magnitude such as \<open>1e999\<close> and
  \<open>$99999999999\<close>. The code converts the digits of a history reference with \<open>std::stoi\<close>,
  which throws \<open>std::out_of_range\<close> beyond \<open>INT_MAX\<close>, and a numeric literal with
  \<open>std::stod\<close>, which throws it beyond the range of \<open>double\<close>: on \<open>$99999999999\<close>, whatever
  the floating-point unit, and on \<open>1e999\<close> \<open>tokenize\<close> returns no token sequence, and what
  it throws is not a \<open>ParseError\<close>.
\<close>

theorem tokenize_out_of_range:
  "tokenize fpu ''$99999999999'' = Inl (OutOfRange ''stoi'')
   \<and> tokenize ideal_fpu ''1e999'' = Inl (OutOfRange ''stod'')"
proof
  show "tokenize fpu ''$99999999999'' = Inl (OutOfRange ''stoi'')"
    by (simp add: lexer_eval)
  show "tokenize ideal_fpu ''1e999'' = Inl (OutOfRange ''stod'')"
    using stod_exponent_out_of_range
    by (simp add: tokenize_def tokenizeLoop_end tokenizeLoop_step skipWhitespace_step
        skipWhitespace_stop digitLoop_step digitLoop_stop lexNumber_def isAtEnd_def
        currentChar_def peekChar_def advance_def isdigit_def isspace_def substr_def Let_def
        del: power_numeral)
qed

subsection \<open>A number with a trailing point\<close>

text \<open>
  \<open>lexNumber\<close> on digits followed by a point and nothing else: the lexeme is the whole
  text, and \<open>std::stod\<close> gives it the value of the digits, when it is in range.
\<close>

lemma decimal_value_digits:
  "list_all isdigit ds \<Longrightarrow> decimal_value (ds @ ''.'') = of_nat (digits_value ds)"
  "list_all isdigit ds \<Longrightarrow> decimal_value ds = of_nat (digits_value ds)"
proof -
  assume a: "list_all isdigit ds"
  then have t: "takeWhile isdigit (ds @ ''.'') = ds" "dropWhile isdigit (ds @ ''.'') = ''.''"
    "takeWhile isdigit ds = ds" "dropWhile isdigit ds = []"
    by (simp_all add: list_all_iff not_digit_dot takeWhile_append2 dropWhile_append2)
  show "decimal_value (ds @ ''.'') = of_nat (digits_value ds)"
    by (simp add: decimal_value_def t exponent_value_def scale10_def)
  show "decimal_value ds = of_nat (digits_value ds)"
    by (simp add: decimal_value_def t exponent_value_def scale10_def)
qed

lemma lexNumber_trailing_dot:
  assumes "ds \<noteq> []" "list_all isdigit ds"
  shows "lexNumber fpu (ds @ ''.'') 0 =
     (if fp_erange fpu (of_nat (digits_value ds)) then Inl (OutOfRange ''stod'')
      else Inr (\<lparr>type = Number, lexeme = ds @ ''.'', position = 0,
                 number_value = fp_of_rat fpu (of_nat (digits_value ds)), history_index = 0\<rparr>,
                Suc (length ds)))"
proof -
  have l1: "digitLoop (ds @ ''.'') 0 0 = (length ds, length ds)"
    using digitLoop_run [of ds "[]" "''.''" 0] assms(2)
    by (simp add: currentChar_def isAtEnd_def not_digit_dot)
  have c1: "currentChar (ds @ ''.'') (length ds) = CHR ''.''"
    by (simp add: currentChar_def isAtEnd_def)
  have c2: "currentChar (ds @ ''.'') (Suc (length ds)) = CHR 0x00"
    by (simp add: currentChar_def isAtEnd_def)
  have l2: "digitLoop (ds @ ''.'') (Suc (length ds)) 0 = (Suc (length ds), 0)"
    by (simp add: digitLoop_stop c2 not_digit_dot)
  from assms show ?thesis
    by (simp add: lexNumber_def l1 c1 c2 l2 advance_def isAtEnd_def substr_def stod_def
        decimal_value_digits)
qed

lemma tokenize_trailing_dot:
  assumes "ds \<noteq> []" "list_all isdigit ds"
  shows "tokenize fpu (ds @ ''.'') =
     (if fp_erange fpu (of_nat (digits_value ds)) then Inl (OutOfRange ''stod'')
      else Inr [\<lparr>type = Number, lexeme = ds @ ''.'', position = 0,
                 number_value = fp_of_rat fpu (of_nat (digits_value ds)), history_index = 0\<rparr>,
                endToken fpu (Suc (length ds))])"
proof -
  from assms obtain d ds' where ds: "ds = d # ds'" and d: "isdigit d"
    by (cases ds) auto
  have c0: "currentChar (ds @ ''.'') 0 = d"
    by (simp add: ds currentChar_def isAtEnd_def)
  have ne: "\<not> isAtEnd (ds @ ''.'') 0"
    by (simp add: isAtEnd_def)
  have sk: "skipWhitespace (ds @ ''.'') 0 = 0"
    by (rule skipWhitespace_stop) (simp add: c0 d isdigit_not_space)
  have e: "isAtEnd (ds @ ''.'') (Suc (length ds))"
    by (simp add: isAtEnd_def)
  show ?thesis
    by (simp add: tokenize_def tokenizeLoop_step [OF ne] sk ne c0 d
        lexNumber_trailing_dot [OF assms] tokenizeLoop_end [OF e])
qed

lemma stod_trailing_dot: "list_all isdigit ds \<Longrightarrow> stod fpu (ds @ ''.'') = stod fpu ds"
  by (simp add: stod_def decimal_value_digits)

lemma tokenize_one_dot:
  "tokenize ideal_fpu ''1.'' =
     Inr [\<lparr>type = Number, lexeme = ''1.'', position = 0, number_value = 1, history_index = 0\<rparr>,
          \<lparr>type = End, lexeme = [], position = 2, number_value = 0, history_index = 0\<rparr>]"
  by (simp add: lexer_eval ideal_fpu_simps)

lemma digits_value_snoc: "digits_value (s @ [c]) = 10 * digits_value s + digit_value c"
  by (simp add: digits_value_def)

lemma digits_value_one_zeros: "digits_value (CHR ''1'' # replicate n (CHR ''0'')) = 10 ^ n"
proof (induction n)
  case 0
  show ?case by (simp add: digits_value_def digit_value_def)
next
  case (Suc n)
  have "CHR ''1'' # replicate (Suc n) (CHR ''0'') = (CHR ''1'' # replicate n (CHR ''0'')) @ [CHR ''0'']"
    by (simp add: replicate_append_same)
  then show ?case
    using Suc by (simp only: digits_value_snoc) (simp add: digit_value_def)
qed

text \<open>
  C9 (the code departs from the claim). The claim: on every text of one or more digits
  followed by a point, \<open>tokenize\<close> succeeds with one \<open>Number\<close> token that has the value of
  the digits. By \<open>tokenize_trailing_dot\<close> this is so exactly when the value is in the range
  of \<open>double\<close>. The lexeme goes to \<open>std::stod\<close> unguarded (the defect of C2), which throws
  \<open>std::out_of_range\<close> on \<open>1\<close> followed by 309 zeros and a point, the text of \<open>10^309\<close>:
  \<open>tokenize\<close> returns no token.
\<close>

theorem tokenize_trailing_dot_out_of_range:
  "tokenize ideal_fpu (CHR ''1'' # replicate 309 (CHR ''0'') @ ''.'') = Inl (OutOfRange ''stod'')"
proof -
  have d: "list_all isdigit (CHR ''1'' # replicate 309 (CHR ''0''))"
    by (simp add: list_all_iff isdigit_def)
  have r: "fp_erange ideal_fpu (of_nat (digits_value (CHR ''1'' # replicate 309 (CHR ''0''))))"
    by (simp only: digits_value_one_zeros) (simp add: ideal_fpu_simps)
  from tokenize_trailing_dot [of "CHR ''1'' # replicate 309 (CHR ''0'')" ideal_fpu] d r
  show ?thesis by simp
qed

section \<open>The grammar\<close>

text \<open>
  The equations of the parsing functions, free of the depth bound: what a function returns
  at a position, given what the functions it calls return.
\<close>

lemma extends_le:
  assumes "\<And>n. extends (f n) (f (Suc n))"
  shows "n \<le> m \<Longrightarrow> extends (f n) (f m)"
proof (induction m)
  case 0
  then show ?case by (simp add: extends_refl)
next
  case (Suc m)
  show ?case
  proof (cases "n = Suc m")
    case True
    then show ?thesis by (simp add: extends_refl del: parser_Suc)
  next
    case False
    with Suc have "extends (f n) (f m)" by simp
    from this assms [of m] show ?thesis by (rule extends_trans)
  qed
qed

lemma returnsAt_from:
  assumes "\<And>n. extends (f n) (f (Suc n))" and "returnsAt f x"
  shows "\<exists>n0. \<forall>n\<ge>n0. f n = Some (Inr x)"
proof -
  from assms(2) obtain n0 where "f n0 = Some (Inr x)" by (auto simp: returnsAt_def)
  with extends_le [of f n0, OF assms(1)] have "\<forall>n\<ge>n0. f n = Some (Inr x)"
    by (simp add: extends_def)
  then show ?thesis ..
qed

lemmas from_expression = returnsAt_from [of "\<lambda>n. parseExpression n tokens pos", OF parser_mono(1)]
  and from_additive = returnsAt_from [of "\<lambda>n. parseAdditive n tokens pos", OF parser_mono(2)]
  and from_additiveLoop = returnsAt_from [of "\<lambda>n. additiveLoop n tokens lhs pos", OF parser_mono(3)]
  and from_multiplicative = returnsAt_from [of "\<lambda>n. parseMultiplicative n tokens pos", OF parser_mono(4)]
  and from_multiplicativeLoop = returnsAt_from [of "\<lambda>n. multiplicativeLoop n tokens lhs pos", OF parser_mono(5)]
  and from_unary = returnsAt_from [of "\<lambda>n. parseUnary n tokens pos", OF parser_mono(6)]
  and from_power = returnsAt_from [of "\<lambda>n. parsePower n tokens pos", OF parser_mono(7)]
  and from_primary = returnsAt_from [of "\<lambda>n. parsePrimary n tokens pos", OF parser_mono(8)]
  for tokens pos lhs

































subsection \<open>Precedence and associativity\<close>



subsection \<open>Unary minus and power\<close>



end
